theory Spec2Isabelle
  imports Complex_Main "HOL-Library.Word"
begin

unbundle bit_operations_syntax

section \<open>Platform values: strings, bytes, numbers, errors\<close>

text \<open>
  A JavaScript string is a sequence of 16-bit code units; a \<open>Uint8Array\<close> is a sequence of
  bytes. String literals of the source are written with \<open>js\<close>.
\<close>

type_synonym jsstring = "16 word list"
type_synonym u8 = "8 word"

definition js :: "string \<Rightarrow> jsstring" where
  "js s = map of_char s"

text \<open>The exceptions the platform calls used by the source can throw.\<close>

datatype dom_error =
    InvalidCharacterError
  | RangeError
  | NotSupportedError
  | InvalidStateError
  | TypeError

subsection \<open>\<open>btoa\<close> and \<open>atob\<close>\<close>

text \<open>
  \<open>btoa\<close> and \<open>atob\<close> are browser built-ins. They are modelled after their standard
  (RFC 4648 base64; \<open>atob\<close> is the "forgiving-base64 decode" of the WHATWG Infra standard):
  \<open>btoa\<close> throws on a code unit above 255; \<open>atob\<close> removes ASCII whitespace, removes one or
  two trailing \<open>=\<close> when the length is a multiple of four, throws when the remaining length
  is 1 modulo 4 or a character is outside the alphabet, and lets a final group of two or
  three characters yield one or two bytes.
\<close>

definition b64_char :: "nat \<Rightarrow> 16 word" where
  "b64_char n =
     (if n < 26 then of_nat (n + 65)
      else if n < 52 then of_nat (n + 71)
      else if n < 62 then of_nat (n - 4)
      else if n = 62 then 43
      else 47)"

definition b64_val :: "16 word \<Rightarrow> nat option" where
  "b64_val c =
     (let k = unat c in
      if 65 \<le> k \<and> k \<le> 90 then Some (k - 65)
      else if 97 \<le> k \<and> k \<le> 122 then Some (k - 71)
      else if 48 \<le> k \<and> k \<le> 57 then Some (k + 4)
      else if k = 43 then Some 62
      else if k = 47 then Some 63
      else None)"

fun b64_sextets :: "nat list \<Rightarrow> nat list" where
  "b64_sextets (a # b # c # rest) =
     [a div 4, (a mod 4) * 16 + b div 16, (b mod 16) * 4 + c div 64, c mod 64] @ b64_sextets rest"
| "b64_sextets [a, b] = [a div 4, (a mod 4) * 16 + b div 16, (b mod 16) * 4]"
| "b64_sextets [a] = [a div 4, (a mod 4) * 16]"
| "b64_sextets [] = []"

definition btoa :: "jsstring \<Rightarrow> dom_error + jsstring" where
  "btoa s =
     (if list_ex (\<lambda>c. 255 < unat c) s then Inl InvalidCharacterError
      else Inr (map b64_char (b64_sextets (map unat s))
                @ replicate ((3 - length s mod 3) mod 3) 61))"

definition ascii_whitespace :: "16 word \<Rightarrow> bool" where
  "ascii_whitespace c \<longleftrightarrow> c = 9 \<or> c = 10 \<or> c = 12 \<or> c = 13 \<or> c = 32"

definition strip_padding :: "jsstring \<Rightarrow> jsstring" where
  "strip_padding d =
     (if length d mod 4 = 0 then
        (if d \<noteq> [] \<and> last d = 61 then
           (if butlast d \<noteq> [] \<and> last (butlast d) = 61 then butlast (butlast d) else butlast d)
         else d)
      else d)"

fun b64_octets :: "nat list \<Rightarrow> nat list" where
  "b64_octets (p # q # r # s # rest) =
     [p * 4 + q div 16, (q mod 16) * 16 + r div 4, (r mod 4) * 64 + s] @ b64_octets rest"
| "b64_octets [p, q, r] = [p * 4 + q div 16, (q mod 16) * 16 + r div 4]"
| "b64_octets [p, q] = [p * 4 + q div 16]"
| "b64_octets [p] = []"
| "b64_octets [] = []"

definition atob :: "jsstring \<Rightarrow> dom_error + jsstring" where
  "atob s =
     (let d = strip_padding (filter (\<lambda>c. \<not> ascii_whitespace c) s) in
      if length d mod 4 = 1 then Inl InvalidCharacterError
      else if list_ex (\<lambda>c. b64_val c = None) d then Inl InvalidCharacterError
      else Inr (map of_nat (b64_octets (map (\<lambda>c. the (b64_val c)) d))))"

subsection \<open>Numbers\<close>

text \<open>
  A JavaScript number is a finite value, an infinity or NaN. Finite values are modelled
  exactly, as rationals: every finite float is one, and the products, maxima and sums of the
  source are taken in exact arithmetic. Multiplying a 32-bit float by \<open>32768\<close> is exact in
  double precision (a power of two, far from overflow), so the sample conversion loses
  nothing by this; for the playback clock, rounding of the one addition is not modelled.
\<close>

datatype js_number = Num rat | NaN | PosInfinity | NegInfinity

fun js_times :: "js_number \<Rightarrow> rat \<Rightarrow> js_number" where
  \<comment> \<open>\<open>x * c\<close> for a positive finite constant \<open>c\<close>\<close>
  "js_times (Num x) c = Num (x * c)"
| "js_times NaN c = NaN"
| "js_times PosInfinity c = PosInfinity"
| "js_times NegInfinity c = NegInfinity"

definition js_truncate :: "rat \<Rightarrow> int" where
  "js_truncate q = (if 0 \<le> q then \<lfloor>q\<rfloor> else \<lceil>q\<rceil>)"

definition ToInt16 :: "js_number \<Rightarrow> int" where
  \<comment> \<open>ECMAScript ToInt16, applied by a store into an \<open>Int16Array\<close>\<close>
  "ToInt16 v =
     (case v of
        Num q \<Rightarrow>
          (let int16bit = js_truncate q mod 2 ^ 16
           in if int16bit \<ge> 2 ^ 15 then int16bit - 2 ^ 16 else int16bit)
      | _ \<Rightarrow> 0)"

text \<open>
  \<open>Number\<close> to string for a non-negative integer below \<open>10^21\<close> (the values of
  \<open>Date.now()\<close>): its decimal digits.
\<close>

fun decimal :: "nat \<Rightarrow> jsstring" where
  "decimal n = (if n < 10 then [of_nat (48 + n)] else decimal (n div 10) @ [of_nat (48 + n mod 10)])"

declare decimal.simps [simp del]

text \<open>\<open>String.prototype.trim\<close>: strips ECMAScript white space and line terminators.\<close>

definition js_whitespace :: "16 word \<Rightarrow> bool" where
  "js_whitespace c \<longleftrightarrow>
     c = 0x9 \<or> c = 0xA \<or> c = 0xB \<or> c = 0xC \<or> c = 0xD \<or> c = 0x20 \<or> c = 0xA0 \<or> c = 0x1680
     \<or> (0x2000 \<le> c \<and> c \<le> 0x200A) \<or> c = 0x2028 \<or> c = 0x2029 \<or> c = 0x202F \<or> c = 0x205F
     \<or> c = 0x3000 \<or> c = 0xFEFF"

definition trim :: "jsstring \<Rightarrow> jsstring" where
  "trim s = rev (dropWhile js_whitespace (rev (dropWhile js_whitespace s)))"

section \<open>\<open>utils/audioUtils.ts\<close>\<close>

definition decodeBase64 :: "jsstring \<Rightarrow> dom_error + u8 list" where
  "decodeBase64 base64 =
     (case atob base64 of
        Inl e \<Rightarrow> Inl e
      | Inr binaryString \<Rightarrow> Inr (map ucast binaryString))"

definition encodeBase64 :: "u8 list \<Rightarrow> dom_error + jsstring" where
  "encodeBase64 bytes = btoa (map ucast bytes)"

text \<open>
  Typed-array views over one buffer. The byte order of \<open>Int16Array\<close> is the platform's;
  it is little-endian on every platform browsers run on, and modelled so.
  \<open>new Int16Array(buffer)\<close> throws a \<open>RangeError\<close> on a buffer of odd length.
\<close>

definition Uint8Array_of_Int16Array :: "16 word list \<Rightarrow> u8 list" where
  "Uint8Array_of_Int16Array int16 = concat (map (\<lambda>v. [ucast v, ucast (drop_bit 8 v)]) int16)"

fun int16_pairs :: "u8 list \<Rightarrow> 16 word list" where
  "int16_pairs (lo # hi # rest) = (ucast lo OR push_bit 8 (ucast hi)) # int16_pairs rest"
| "int16_pairs _ = []"

definition Int16Array_of_Uint8Array :: "u8 list \<Rightarrow> dom_error + 16 word list" where
  "Int16Array_of_Uint8Array bytes =
     (if odd (length bytes) then Inl RangeError else Inr (int16_pairs bytes))"

record Blob =
  blob_data :: jsstring
  mimeType :: jsstring

definition pcm16 :: "js_number \<Rightarrow> 16 word" where
  \<comment> \<open>\<open>int16[i] = data[i] * 32768\<close>\<close>
  "pcm16 x = word_of_int (ToInt16 (js_times x 32768))"

definition createPcmBlob :: "js_number list \<Rightarrow> dom_error + Blob" where
  "createPcmBlob data =
     (let int16 = map pcm16 data in
      case encodeBase64 (Uint8Array_of_Int16Array int16) of
        Inl e \<Rightarrow> Inl e
      | Inr d \<Rightarrow> Inr \<lparr>blob_data = d, mimeType = js ''audio/pcm;rate=16000''\<rparr>)"

text \<open>
  An \<open>AudioBuffer\<close>: its duration is its length in frames over its sample rate.
  \<open>createBuffer\<close> throws \<open>NotSupportedError\<close> for no channel or no frame. The frame count
  \<open>dataInt16.length / numChannels\<close> is converted to an unsigned integer by \<open>createBuffer\<close>.
\<close>

record AudioBuffer =
  numberOfChannels :: nat
  buf_length :: nat
  sampleRate :: nat
  channelData :: "rat list list"

definition duration :: "AudioBuffer \<Rightarrow> rat" where
  "duration b = of_nat (buf_length b) / of_nat (sampleRate b)"

definition decodeAudioData :: "u8 list \<Rightarrow> nat \<Rightarrow> nat \<Rightarrow> dom_error + AudioBuffer" where
  "decodeAudioData bytes rate numChannels =
     (case Int16Array_of_Uint8Array bytes of
        Inl e \<Rightarrow> Inl e
      | Inr dataInt16 \<Rightarrow>
          (let frameCount = length dataInt16 div numChannels in
           if numChannels = 0 \<or> frameCount = 0 \<or> rate = 0 then Inl NotSupportedError
           else Inr \<lparr>numberOfChannels = numChannels, buf_length = frameCount, sampleRate = rate,
                     channelData =
                       map (\<lambda>channel.
                              map (\<lambda>i. of_int (sint (dataInt16 ! (i * numChannels + channel))) / 32768)
                                [0 ..< frameCount])
                         [0 ..< numChannels]\<rparr>))"

section \<open>The live session: data\<close>

text \<open>\<open>constants.ts\<close> and \<open>utils/jarvisPersona.ts\<close>.\<close>

definition JARVIS_PREFIX :: jsstring where
  "JARVIS_PREFIX = js ''Indeed, Sir.''"

definition JARVIS_ERROR_PREFIX :: jsstring where
  "JARVIS_ERROR_PREFIX = js ''System status: Operational anomaly detected.''"

definition getJarvisPrefix :: "nat \<Rightarrow> jsstring" where
  \<comment> \<open>the argument is \<open>new Date().getHours()\<close>\<close>
  "getJarvisPrefix hour =
     (if hour < 12 then JARVIS_PREFIX
      else if hour < 18 then JARVIS_PREFIX
      else JARVIS_PREFIX)"

text \<open>\<open>types.ts\<close>: a chat message (the optional fields are never set by the live session).\<close>

datatype Sender = user | jarvis

record ChatMessage =
  cm_id :: jsstring
  sender :: Sender
  cm_text :: jsstring

text \<open>
  The fields of a \<open>LiveServerMessage\<close> the handler reads. Optional chaining collapses the
  path to each field, so each is modelled at the point it is tested:
  \<open>serverContent?.outputTranscription\<close> and \<open>serverContent?.inputTranscription\<close> (an object
  with an optional \<open>text\<close>), \<open>serverContent?.turnComplete\<close>,
  \<open>serverContent?.modelTurn?.parts?.[0]?.inlineData?.data\<close>, \<open>serverContent?.interrupted\<close>
  and \<open>toolCall\<close> (an object with an optional \<open>functionCalls\<close> array).
\<close>

datatype Transcription = Transcription (transcription_text: "jsstring option")

record FunctionCall =
  fc_id :: "jsstring option"
  fc_name :: "jsstring option"
  fc_args :: jsstring

datatype LiveServerToolCall = LiveServerToolCall (functionCalls: "FunctionCall list option")

record LiveServerMessage =
  outputTranscription :: "Transcription option"
  inputTranscription :: "Transcription option"
  turnComplete :: bool
  inlineData :: "jsstring option"
  interrupted :: bool
  toolCall :: "LiveServerToolCall option"

text \<open>The argument of \<open>session.sendToolResponse\<close>.\<close>

record FunctionResponse =
  fr_id :: "jsstring option"
  fr_name :: "jsstring option"
  fr_result :: jsstring

text \<open>
  What the handler reads from its surroundings while it runs: the output context's
  \<open>currentTime\<close>, the two \<open>Date.now()\<close> of the turn's message ids, and the hour of the day.
\<close>

record reads =
  currentTime :: rat
  dateNowUser :: nat
  dateNowJarvis :: nat
  hours :: nat

text \<open>
  An \<open>AudioBufferSourceNode\<close>: \<open>start\<close> and \<open>stop\<close> throw \<open>InvalidStateError\<close> on a node
  already started, respectively never started.
\<close>

record AudioBufferSourceNode =
  node_id :: nat
  started :: bool

datatype MediaStream = MediaStream
datatype AudioContext = AudioContext nat
datatype ScriptProcessorNode = ScriptProcessorNode
datatype MediaStreamAudioSourceNode = MediaStreamAudioSourceNode
datatype GainNode = GainNode

text \<open>
  The calls the service makes on its collaborators, in the order it makes them: the four
  callbacks of the presentation layer, the audio devices, and the session of the remote
  channel (named by the promise it came from). Console output, node creation and the wiring
  of the audio graph are not recorded.
\<close>

datatype effect =
    OnTranscription jsstring bool
  | OnAudioPlayback
  | OnError jsstring
  | OnClose
  | SourceStart nat rat rat
  | SourceStop nat
  | TrackStop
  | InputContextClose
  | OutputContextClose
  | ProcessorDisconnect
  | InputSourceDisconnect
  | GainDisconnect
  | SendRealtimeInput nat Blob
  | SendToolResponse nat FunctionResponse
  | SessionClose nat

text \<open>
  The three callbacks the source passes to \<open>sessionPromise.then\<close>, and a promise: pending
  with the reactions registered so far, fulfilled or rejected.
\<close>

datatype reaction =
    ThenSendRealtimeInput Blob
  | ThenSendToolResponse FunctionResponse
  | ThenCloseSession

datatype promise_state = Pending | Fulfilled | Rejected

record promise =
  settled :: promise_state
  reactions :: "reaction list"

text \<open>\<open>LiveAssistantState\<close>, field by field; a JavaScript \<open>Set\<close> keeps insertion order.\<close>

record LiveAssistantState =
  isConnecting :: bool
  isConnected :: bool
  transcriptionHistory :: "ChatMessage list"
  currentInputTranscription :: jsstring
  currentOutputTranscription :: jsstring
  microphoneStream :: "MediaStream option"
  inputAudioContext :: "AudioContext option"
  outputAudioContext :: "AudioContext option"
  inputScriptProcessor :: "ScriptProcessorNode option"
  inputAudioSource :: "MediaStreamAudioSourceNode option"
  outputGainNode :: "GainNode option"
  playbackNextStartTime :: rat
  activeAudioSources :: "AudioBufferSourceNode list"
  sessionPromise :: "nat option"

text \<open>
  The service's state together with what surrounds it: the promises created so far, the
  microtask queue (reactions of fulfilled promises, run when the current handler has
  finished), the number of source nodes created, and the calls made so far.
\<close>

record world = LiveAssistantState +
  promises :: "nat \<Rightarrow> promise"
  promiseCount :: nat
  microtasks :: "(nat \<times> reaction) list"
  nodesCreated :: nat
  trace :: "effect list"

definition initial :: world where
  "initial =
     \<lparr>isConnecting = False, isConnected = False, transcriptionHistory = [],
      currentInputTranscription = [], currentOutputTranscription = [],
      microphoneStream = None, inputAudioContext = None, outputAudioContext = None,
      inputScriptProcessor = None, inputAudioSource = None, outputGainNode = None,
      playbackNextStartTime = 0, activeAudioSources = [], sessionPromise = None,
      promises = (\<lambda>_. \<lparr>settled = Pending, reactions = []\<rparr>), promiseCount = 0,
      microtasks = [], nodesCreated = 0, trace = []\<rparr>"

text \<open>
  A handler either returns, or throws with the state as it was at the throw.
\<close>

type_synonym outcome = "(dom_error \<times> world) + world"

definition and_then :: "outcome \<Rightarrow> (world \<Rightarrow> outcome) \<Rightarrow> outcome" where
  "and_then r f = (case r of Inl e \<Rightarrow> Inl e | Inr w \<Rightarrow> f w)"

definition after :: "outcome \<Rightarrow> world" where
  "after r = (case r of Inl (e, w) \<Rightarrow> w | Inr w \<Rightarrow> w)"

definition emit :: "effect \<Rightarrow> world \<Rightarrow> world" where
  "emit e w = w\<lparr>trace := trace w @ [e]\<rparr>"

section \<open>Promises and microtasks\<close>

definition then_session :: "reaction \<Rightarrow> world \<Rightarrow> world" where
  \<comment> \<open>\<open>LiveAssistantService.state.sessionPromise?.then(...)\<close>\<close>
  "then_session r w =
     (case sessionPromise w of
        None \<Rightarrow> w
      | Some p \<Rightarrow>
          (case settled (promises w p) of
             Pending \<Rightarrow>
               w\<lparr>promises := (promises w)(p := (promises w p)\<lparr>reactions := reactions (promises w p) @ [r]\<rparr>)\<rparr>
           | Fulfilled \<Rightarrow> w\<lparr>microtasks := microtasks w @ [(p, r)]\<rparr>
           | Rejected \<Rightarrow> w))"

fun run_reaction :: "nat \<times> reaction \<Rightarrow> world \<Rightarrow> world" where
  "run_reaction (p, ThenSendRealtimeInput blob) w = emit (SendRealtimeInput p blob) w"
| "run_reaction (p, ThenSendToolResponse r) w = emit (SendToolResponse p r) w"
| "run_reaction (p, ThenCloseSession) w = (emit (SessionClose p) w)\<lparr>sessionPromise := None\<rparr>"

fun reaction_call :: "nat \<times> reaction \<Rightarrow> effect" where
  \<comment> \<open>the call a reaction makes when it runs\<close>
  "reaction_call (p, ThenSendRealtimeInput blob) = SendRealtimeInput p blob"
| "reaction_call (p, ThenSendToolResponse r) = SendToolResponse p r"
| "reaction_call (p, ThenCloseSession) = SessionClose p"

definition drain :: "world \<Rightarrow> world" where
  \<comment> \<open>the microtask checkpoint at the end of a task\<close>
  "drain w = fold run_reaction (microtasks w) (w\<lparr>microtasks := []\<rparr>)"

definition fulfil :: "nat \<Rightarrow> world \<Rightarrow> world" where
  "fulfil p w =
     (if settled (promises w p) = Pending then
        w\<lparr>promises := (promises w)(p := \<lparr>settled = Fulfilled, reactions = []\<rparr>),
          microtasks := microtasks w @ map (Pair p) (reactions (promises w p))\<rparr>
      else w)"

definition reject :: "nat \<Rightarrow> world \<Rightarrow> world" where
  "reject p w =
     (if settled (promises w p) = Pending then
        w\<lparr>promises := (promises w)(p := \<lparr>settled = Rejected, reactions = []\<rparr>)\<rparr>
      else w)"

section \<open>Playback scheduling\<close>

definition Set_add :: "'a \<Rightarrow> 'a list \<Rightarrow> 'a list" where
  "Set_add x xs = (if x \<in> set xs then xs else xs @ [x])"

text \<open>
  \<open>playAudioBuffer\<close>: the context is read for its \<open>currentTime\<close> only, passed here as a
  number. \<open>createBufferSource\<close> gives a fresh node, on which \<open>start\<close> cannot throw; the node
  is recorded as started. The result is the updated \<open>nextStartTime\<close>.
\<close>

definition playAudioBuffer :: "AudioBuffer \<Rightarrow> rat \<Rightarrow> rat \<Rightarrow> world \<Rightarrow> rat \<times> world" where
  "playAudioBuffer audioBuffer contextTime currentNextStartTime w =
     (let nextStartTime = max currentNextStartTime contextTime;
          source = \<lparr>node_id = nodesCreated w, started = True\<rparr>;
          w1 = emit (SourceStart (node_id source) nextStartTime (duration audioBuffer))
                 (w\<lparr>nodesCreated := Suc (nodesCreated w)\<rparr>);
          nextStartTime = nextStartTime + duration audioBuffer
      in (nextStartTime, w1\<lparr>activeAudioSources := Set_add source (activeAudioSources w1)\<rparr>))"

definition onended :: "AudioBufferSourceNode \<Rightarrow> world \<Rightarrow> world" where
  \<comment> \<open>the \<open>ended\<close> listener \<open>playAudioBuffer\<close> installs on each source\<close>
  "onended source w = w\<lparr>activeAudioSources := removeAll source (activeAudioSources w)\<rparr>"

fun stop_sources :: "AudioBufferSourceNode list \<Rightarrow> world \<Rightarrow> outcome" where
  \<comment> \<open>\<open>activeAudioSources.forEach(source => source.stop())\<close>\<close>
  "stop_sources [] w = Inr w"
| "stop_sources (source # rest) w =
     (if started source then stop_sources rest (emit (SourceStop (node_id source)) w)
      else Inl (InvalidStateError, w))"

section \<open>\<open>LiveAssistantService\<close>\<close>

subsection \<open>\<open>stopConversation\<close>\<close>

text \<open>The six guarded releases at the head of \<open>stopConversation\<close>, one definition each.\<close>

definition stop_microphone :: "world \<Rightarrow> world" where
  "stop_microphone w =
     (if microphoneStream w \<noteq> None then (emit TrackStop w)\<lparr>microphoneStream := None\<rparr> else w)"

definition close_input_context :: "world \<Rightarrow> world" where
  "close_input_context w =
     (if inputAudioContext w \<noteq> None then (emit InputContextClose w)\<lparr>inputAudioContext := None\<rparr>
      else w)"

definition close_output_context :: "world \<Rightarrow> world" where
  "close_output_context w =
     (if outputAudioContext w \<noteq> None then (emit OutputContextClose w)\<lparr>outputAudioContext := None\<rparr>
      else w)"

definition disconnect_processor :: "world \<Rightarrow> world" where
  "disconnect_processor w =
     (if inputScriptProcessor w \<noteq> None
      then (emit ProcessorDisconnect w)\<lparr>inputScriptProcessor := None\<rparr> else w)"

definition disconnect_input_source :: "world \<Rightarrow> world" where
  "disconnect_input_source w =
     (if inputAudioSource w \<noteq> None
      then (emit InputSourceDisconnect w)\<lparr>inputAudioSource := None\<rparr> else w)"

definition disconnect_gain :: "world \<Rightarrow> world" where
  "disconnect_gain w =
     (if outputGainNode w \<noteq> None then (emit GainDisconnect w)\<lparr>outputGainNode := None\<rparr> else w)"

definition stopConversation :: "world \<Rightarrow> outcome" where
  "stopConversation w =
     (let w1 = stop_microphone w;
          w2 = close_input_context w1;
          w3 = close_output_context w2;
          w4 = disconnect_processor w3;
          w5 = disconnect_input_source w4;
          w6 = disconnect_gain w5
      in and_then (stop_sources (activeAudioSources w6) w6)
           (\<lambda>w7. Inr ((then_session ThenCloseSession
                          (w7\<lparr>activeAudioSources := [], playbackNextStartTime := 0\<rparr>))
                        \<lparr>isConnected := False, isConnecting := False\<rparr>)))"

subsection \<open>\<open>startConversation\<close>\<close>

text \<open>
  \<open>startConversation\<close> runs up to its \<open>await\<close> of \<open>getUserMedia\<close>; the rest runs when the
  microphone request settles (\<open>startConversation_continue\<close>). A statement of the
  \<open>try\<close> block may throw; the \<open>catch\<close> block gets the message \<open>formatErrorForUI\<close> makes of
  the error.
\<close>

definition startConversation :: "world \<Rightarrow> world" where
  "startConversation w =
     (if isConnected w \<or> isConnecting w
      then emit (OnError (JARVIS_ERROR_PREFIX @ js '' Live session already in progress.'')) w
      else w\<lparr>isConnecting := True, transcriptionHistory := [],
             currentInputTranscription := [], currentOutputTranscription := [],
             playbackNextStartTime := 0, activeAudioSources := []\<rparr>)"

datatype start_step = GetUserMedia | NewInputContext | NewOutputContext | CreateGain | LiveConnect

datatype start_result = Throws start_step jsstring | Connects

fun acquire :: "start_step \<Rightarrow> world \<Rightarrow> world" where
  "acquire GetUserMedia w = w\<lparr>microphoneStream := Some MediaStream\<rparr>"
| "acquire NewInputContext w = w\<lparr>inputAudioContext := Some (AudioContext 16000)\<rparr>"
| "acquire NewOutputContext w = w\<lparr>outputAudioContext := Some (AudioContext 24000)\<rparr>"
| "acquire CreateGain w = w\<lparr>outputGainNode := Some GainNode\<rparr>"
| "acquire LiveConnect w =
     w\<lparr>sessionPromise := Some (promiseCount w),
       promises := (promises w)(promiseCount w := \<lparr>settled = Pending, reactions = []\<rparr>),
       promiseCount := Suc (promiseCount w)\<rparr>"

definition start_steps :: "start_step list" where
  "start_steps = [GetUserMedia, NewInputContext, NewOutputContext, CreateGain, LiveConnect]"

definition startConversation_continue :: "start_result \<Rightarrow> world \<Rightarrow> outcome" where
  "startConversation_continue r w =
     (case r of
        Connects \<Rightarrow> Inr (fold acquire start_steps w)
      | Throws step error \<Rightarrow>
          (let w1 = fold acquire (takeWhile (\<lambda>s. s \<noteq> step) start_steps) w;
               w2 = emit (OnError (JARVIS_ERROR_PREFIX @ js '' Failed to start live session: '' @ error)) w1
           in stopConversation (w2\<lparr>isConnecting := False, isConnected := False\<rparr>)))"

subsection \<open>The callbacks given to \<open>ai.live.connect\<close>\<close>

definition onopen :: "world \<Rightarrow> world" where
  "onopen w =
     (let w1 = w\<lparr>isConnected := True, isConnecting := False\<rparr> in
      if inputAudioContext w1 \<noteq> None \<and> microphoneStream w1 \<noteq> None
      then w1\<lparr>inputAudioSource := Some MediaStreamAudioSourceNode,
              inputScriptProcessor := Some ScriptProcessorNode\<rparr>
      else w1)"

definition onaudioprocess :: "js_number list \<Rightarrow> world \<Rightarrow> outcome" where
  "onaudioprocess inputData w =
     (case createPcmBlob inputData of
        Inl e \<Rightarrow> Inl (e, w)
      | Inr pcmBlob \<Rightarrow> Inr (then_session (ThenSendRealtimeInput pcmBlob) w))"

definition process_transcription :: "LiveServerMessage \<Rightarrow> world \<Rightarrow> world" where
  "process_transcription message w =
     (case outputTranscription message of
        Some t \<Rightarrow>
          (case transcription_text t of
             Some text \<Rightarrow>
               if text \<noteq> [] then
                 (let w1 = w\<lparr>currentOutputTranscription := currentOutputTranscription w @ text\<rparr>
                  in emit (OnTranscription (currentOutputTranscription w1) False) w1)
               else w
           | None \<Rightarrow> w)
      | None \<Rightarrow>
          (case inputTranscription message of
             Some t \<Rightarrow>
               (case transcription_text t of
                  Some text \<Rightarrow>
                    if text \<noteq> [] then
                      (let w1 = w\<lparr>currentInputTranscription := currentInputTranscription w @ text\<rparr>
                       in emit (OnTranscription (currentInputTranscription w1) True) w1)
                    else w
                | None \<Rightarrow> w)
           | None \<Rightarrow> w))"

definition process_turn_complete :: "reads \<Rightarrow> LiveServerMessage \<Rightarrow> world \<Rightarrow> world" where
  "process_turn_complete env message w =
     (if turnComplete message then
        (let userTurn =
               \<lparr>cm_id = js ''user-'' @ decimal (dateNowUser env) @ js ''-live'',
                sender = user,
                cm_text = trim (currentInputTranscription w)\<rparr>;
             jarvisTurn =
               \<lparr>cm_id = js ''jarvis-'' @ decimal (dateNowJarvis env) @ js ''-live'',
                sender = jarvis,
                cm_text = getJarvisPrefix (hours env) @ js '' '' @ trim (currentOutputTranscription w)\<rparr>
         in w\<lparr>transcriptionHistory := transcriptionHistory w @ [userTurn, jarvisTurn],
               currentInputTranscription := [],
               currentOutputTranscription := []\<rparr>)
      else w)"

definition process_audio :: "reads \<Rightarrow> LiveServerMessage \<Rightarrow> world \<Rightarrow> outcome" where
  "process_audio env message w =
     (case inlineData message of
        None \<Rightarrow> Inr w
      | Some base64EncodedAudioString \<Rightarrow>
          if base64EncodedAudioString \<noteq> [] \<and> outputAudioContext w \<noteq> None \<and> outputGainNode w \<noteq> None
          then
            (case decodeBase64 base64EncodedAudioString of
               Inl e \<Rightarrow> Inl (e, w)
             | Inr bytes \<Rightarrow>
                 (case decodeAudioData bytes 24000 1 of
                    Inl e \<Rightarrow> Inl (e, w)
                  | Inr audioBuffer \<Rightarrow>
                      (case playAudioBuffer audioBuffer (currentTime env) (playbackNextStartTime w) w of
                         (nextStartTime, w1) \<Rightarrow>
                           Inr (emit OnAudioPlayback (w1\<lparr>playbackNextStartTime := nextStartTime\<rparr>)))))
          else Inr w)"

definition handle_interruption :: "LiveServerMessage \<Rightarrow> world \<Rightarrow> outcome" where
  "handle_interruption message w =
     (if interrupted message then
        and_then (stop_sources (activeAudioSources w) w)
          (\<lambda>w1. Inr (w1\<lparr>activeAudioSources := [], playbackNextStartTime := 0\<rparr>))
      else Inr w)"

definition tool_response :: "FunctionCall \<Rightarrow> FunctionResponse" where
  "tool_response fc =
     \<lparr>fr_id = fc_id fc, fr_name = fc_name fc,
      fr_result = js ''Function executed successfully. Data processed.''\<rparr>"

definition handle_tool_calls :: "LiveServerMessage \<Rightarrow> world \<Rightarrow> outcome" where
  "handle_tool_calls message w =
     (case toolCall message of
        None \<Rightarrow> Inr w
      | Some tc \<Rightarrow>
          (case functionCalls tc of
             None \<Rightarrow> Inl (TypeError, w)
           | Some fcs \<Rightarrow> Inr (fold (\<lambda>fc. then_session (ThenSendToolResponse (tool_response fc))) fcs w)))"

definition onmessage :: "reads \<Rightarrow> LiveServerMessage \<Rightarrow> world \<Rightarrow> outcome" where
  "onmessage env message w =
     and_then (process_audio env message
                 (process_turn_complete env message (process_transcription message w)))
       (\<lambda>w1. and_then (handle_interruption message w1) (handle_tool_calls message))"

definition onerror :: "jsstring \<Rightarrow> world \<Rightarrow> outcome" where
  \<comment> \<open>the argument is \<open>formatErrorForUI(e)\<close>\<close>
  "onerror detail w =
     stopConversation
       (emit (OnError (JARVIS_ERROR_PREFIX @ js '' Live session encountered an error: '' @ detail)) w)"

definition onclose :: "world \<Rightarrow> outcome" where
  "onclose w = stopConversation (emit OnClose w)"

subsection \<open>The states the service can be in\<close>

text \<open>
  Everything that can happen to the service, in any order: its own entry points, the
  callbacks of the session, of the script processor and of the source nodes, the settling
  of a promise, and the microtask checkpoint. A handler that throws leaves its state behind.
\<close>

inductive reachable :: "world \<Rightarrow> bool" where
  r_initial: "reachable initial"
| r_start: "reachable w \<Longrightarrow> reachable (startConversation w)"
| r_continue: "reachable w \<Longrightarrow> reachable (after (startConversation_continue r w))"
| r_stop: "reachable w \<Longrightarrow> reachable (after (stopConversation w))"
| r_open: "reachable w \<Longrightarrow> reachable (onopen w)"
| r_message: "reachable w \<Longrightarrow> reachable (after (onmessage env message w))"
| r_error: "reachable w \<Longrightarrow> reachable (after (onerror detail w))"
| r_close: "reachable w \<Longrightarrow> reachable (after (onclose w))"
| r_audio: "reachable w \<Longrightarrow> reachable (after (onaudioprocess inputData w))"
| r_ended: "reachable w \<Longrightarrow> reachable (onended source w)"
| r_fulfil: "reachable w \<Longrightarrow> reachable (fulfil p w)"
| r_reject: "reachable w \<Longrightarrow> reachable (reject p w)"
| r_drain: "reachable w \<Longrightarrow> reachable (drain w)"

section \<open>The order of handling the specification states\<close>

text \<open>
  The six steps of the specification's dispatcher (its section 4.4), each in the
  specification's words, on the state of the service. None of them can fail: the
  specification has a malformed field skipped and the later steps still applied.
\<close>

text \<open>
  Steps (1) and (2): append the output-transcript delta, if present, to the assistant
  partial and notify; append the input-transcript delta, if present, to the user partial and
  notify. A delta is present when its text is a non-empty string; the notification carries
  the accumulator's current value.
\<close>

definition delta :: "Transcription option \<Rightarrow> jsstring option" where
  "delta t =
     (case t of
        None \<Rightarrow> None
      | Some tr \<Rightarrow>
          (case transcription_text tr of
             None \<Rightarrow> None
           | Some text \<Rightarrow> if text = [] then None else Some text))"

definition spec_append_output_delta :: "LiveServerMessage \<Rightarrow> world \<Rightarrow> world" where
  "spec_append_output_delta message w =
     (case delta (outputTranscription message) of
        None \<Rightarrow> w
      | Some text \<Rightarrow>
          emit (OnTranscription (currentOutputTranscription w @ text) False)
            (w\<lparr>currentOutputTranscription := currentOutputTranscription w @ text\<rparr>))"

definition spec_append_input_delta :: "LiveServerMessage \<Rightarrow> world \<Rightarrow> world" where
  "spec_append_input_delta message w =
     (case delta (inputTranscription message) of
        None \<Rightarrow> w
      | Some text \<Rightarrow>
          emit (OnTranscription (currentInputTranscription w @ text) True)
            (w\<lparr>currentInputTranscription := currentInputTranscription w @ text\<rparr>))"

text \<open>
  Step (3), with section 4.6: on a turn-complete marker, construct the turn from the trimmed
  user partial and the trimmed assistant partial with the persona prefix applied, append it
  to the history, then reset both accumulators. The history holds a turn as its user entry
  followed by its assistant entry.
\<close>

definition TranscriptTurn :: "reads \<Rightarrow> jsstring \<Rightarrow> jsstring \<Rightarrow> ChatMessage list" where
  "TranscriptTurn env userText assistantText =
     [\<lparr>cm_id = js ''user-'' @ decimal (dateNowUser env) @ js ''-live'', sender = user,
       cm_text = userText\<rparr>,
      \<lparr>cm_id = js ''jarvis-'' @ decimal (dateNowJarvis env) @ js ''-live'', sender = jarvis,
       cm_text = assistantText\<rparr>]"

definition spec_finalize_turn :: "reads \<Rightarrow> LiveServerMessage \<Rightarrow> world \<Rightarrow> world" where
  "spec_finalize_turn env message w =
     (if turnComplete message then
        w\<lparr>transcriptionHistory :=
            transcriptionHistory w
              @ TranscriptTurn env (trim (currentInputTranscription w))
                  (JARVIS_PREFIX @ js '' '' @ trim (currentOutputTranscription w)),
          currentInputTranscription := [],
          currentOutputTranscription := []\<rparr>
      else w)"

text \<open>
  Step (4), with section 4.5: if an audio payload is present, decode it (mono, 24kHz) and
  hand it to the scheduler; a payload that does not decode is skipped. On a decoded buffer
  of duration \<open>d\<close> the scheduler takes \<open>start = max(nextStartTime, outputClockNow)\<close>, schedules
  the buffer to begin at \<open>start\<close>, sets \<open>nextStartTime = start + d\<close> and registers a handle in
  the active set; the presentation layer is told that audio plays.
\<close>

definition spec_decode :: "jsstring \<Rightarrow> AudioBuffer option" where
  "spec_decode payload =
     (case decodeBase64 payload of
        Inl e \<Rightarrow> None
      | Inr bytes \<Rightarrow> (case decodeAudioData bytes 24000 1 of Inl e \<Rightarrow> None | Inr b \<Rightarrow> Some b))"

definition spec_schedule :: "reads \<Rightarrow> AudioBuffer \<Rightarrow> world \<Rightarrow> world" where
  "spec_schedule env b w =
     (let start = max (playbackNextStartTime w) (currentTime env);
          handle = \<lparr>node_id = nodesCreated w, started = True\<rparr>
      in w\<lparr>playbackNextStartTime := start + duration b,
           activeAudioSources := Set_add handle (activeAudioSources w),
           nodesCreated := Suc (nodesCreated w),
           trace := trace w @ [SourceStart (node_id handle) start (duration b), OnAudioPlayback]\<rparr>)"

definition spec_schedule_audio :: "reads \<Rightarrow> LiveServerMessage \<Rightarrow> world \<Rightarrow> world" where
  "spec_schedule_audio env message w =
     (case inlineData message of
        None \<Rightarrow> w
      | Some payload \<Rightarrow>
          (case spec_decode payload of
             None \<Rightarrow> w
           | Some b \<Rightarrow> spec_schedule env b w))"

text \<open>
  Step (5), with section 4.5: on an interruption marker, stop every handle in the active
  set, clear the set and reset \<open>nextStartTime\<close> to 0.
\<close>

definition spec_abort_playback :: "LiveServerMessage \<Rightarrow> world \<Rightarrow> world" where
  "spec_abort_playback message w =
     (if interrupted message then
        w\<lparr>playbackNextStartTime := 0,
          activeAudioSources := [],
          trace := trace w @ map (\<lambda>handle. SourceStop (node_id handle)) (activeAudioSources w)\<rparr>
      else w)"

text \<open>
  Step (6): if tool-call requests are present, hand each to the bridge in the order
  received. The bridge is the one the code has: it sends the response \<open>tool_response\<close> of the
  request through the session, which queues it. A tool-call field without its list of
  requests carries none.
\<close>

fun spec_forward :: "FunctionCall list \<Rightarrow> world \<Rightarrow> world" where
  "spec_forward [] w = w"
| "spec_forward (request # rest) w =
     spec_forward rest (then_session (ThenSendToolResponse (tool_response request)) w)"

definition spec_forward_tool_calls :: "LiveServerMessage \<Rightarrow> world \<Rightarrow> world" where
  "spec_forward_tool_calls message w =
     (case toolCall message of
        None \<Rightarrow> w
      | Some tc \<Rightarrow> (case functionCalls tc of None \<Rightarrow> w | Some requests \<Rightarrow> spec_forward requests w))"

text \<open>The first three steps, and all six, in the specification's order.\<close>

definition spec_transcript_steps :: "reads \<Rightarrow> LiveServerMessage \<Rightarrow> world \<Rightarrow> world" where
  "spec_transcript_steps env message w =
     spec_finalize_turn env message
       (spec_append_input_delta message (spec_append_output_delta message w))"

definition spec_order :: "reads \<Rightarrow> LiveServerMessage \<Rightarrow> world \<Rightarrow> world" where
  "spec_order env message w =
     spec_forward_tool_calls message
       (spec_abort_playback message
          (spec_schedule_audio env message (spec_transcript_steps env message w)))"

text \<open>
  What is needed to compare the handler with these steps. The message as the handler reads
  its transcriptions: the input transcription is looked at only when there is no output
  transcription. A malformed payload is a non-empty one that does not decode; a malformed
  tool call is one without its list of requests.
\<close>

definition exclusive :: "LiveServerMessage \<Rightarrow> LiveServerMessage" where
  "exclusive message =
     (if outputTranscription message = None then message
      else message\<lparr>inputTranscription := None\<rparr>)"

definition malformed_payload :: "LiveServerMessage \<Rightarrow> bool" where
  "malformed_payload message \<longleftrightarrow>
     (case inlineData message of
        None \<Rightarrow> False
      | Some payload \<Rightarrow> payload \<noteq> [] \<and> spec_decode payload = None)"

definition malformed_tool_call :: "LiveServerMessage \<Rightarrow> bool" where
  "malformed_tool_call message \<longleftrightarrow>
     (case toolCall message of None \<Rightarrow> False | Some tc \<Rightarrow> functionCalls tc = None)"

section \<open>Observations used to state the properties\<close>

text \<open>
  A run of the message handler over a sequence of messages, each with what it reads on
  arrival: the states after each message. A message whose handler throws leaves the state
  of the throw, and the next message is handled from there.
\<close>

fun run :: "(reads \<times> LiveServerMessage) list \<Rightarrow> world \<Rightarrow> world list" where
  "run [] w = []"
| "run ((env, message) # rest) w =
     (let w1 = after (onmessage env message w) in w1 # run rest w1)"

text \<open>
  The decoded audio buffer a message hands to playback in a state: there is one when the
  message has a non-empty payload, the output context and gain node exist, and the payload
  decodes.
\<close>

definition inbound_buffer :: "LiveServerMessage \<Rightarrow> world \<Rightarrow> AudioBuffer option" where
  "inbound_buffer message w =
     (case inlineData message of
        None \<Rightarrow> None
      | Some d \<Rightarrow>
          if d \<noteq> [] \<and> outputAudioContext w \<noteq> None \<and> outputGainNode w \<noteq> None then
            (case decodeBase64 d of
               Inl e \<Rightarrow> None
             | Inr bytes \<Rightarrow>
                 (case decodeAudioData bytes 24000 1 of Inl e \<Rightarrow> None | Inr b \<Rightarrow> Some b))
          else None)"

text \<open>
  The message is handled without a throw from decoding: its payload, if it is to be
  played, decodes, and its tool call, if any, has its list of function calls.
\<close>

definition decodes :: "LiveServerMessage \<Rightarrow> world \<Rightarrow> bool" where
  "decodes message w \<longleftrightarrow>
     (case inlineData message of
        None \<Rightarrow> True
      | Some d \<Rightarrow>
          d \<noteq> [] \<and> outputAudioContext w \<noteq> None \<and> outputGainNode w \<noteq> None
            \<longrightarrow> inbound_buffer message w \<noteq> None)
     \<and> (case toolCall message of None \<Rightarrow> True | Some tc \<Rightarrow> functionCalls tc \<noteq> None)"

text \<open>The calls made between two states, and projections of a list of calls.\<close>

definition calls_between :: "world \<Rightarrow> world \<Rightarrow> effect list" where
  "calls_between w w1 = drop (length (trace w)) (trace w1)"

fun source_starts :: "effect list \<Rightarrow> (rat \<times> rat) list" where
  "source_starts [] = []"
| "source_starts (SourceStart n t d # es) = (t, d) # source_starts es"
| "source_starts (e # es) = source_starts es"

fun started_nodes :: "effect list \<Rightarrow> nat list" where
  "started_nodes [] = []"
| "started_nodes (SourceStart n t d # es) = n # started_nodes es"
| "started_nodes (e # es) = started_nodes es"

fun stopped_nodes :: "effect list \<Rightarrow> nat list" where
  "stopped_nodes [] = []"
| "stopped_nodes (SourceStop n # es) = n # stopped_nodes es"
| "stopped_nodes (e # es) = stopped_nodes es"

fun tool_responses :: "effect list \<Rightarrow> FunctionResponse list" where
  "tool_responses [] = []"
| "tool_responses (SendToolResponse p r # es) = r # tool_responses es"
| "tool_responses (e # es) = tool_responses es"

fun errors_reported :: "effect list \<Rightarrow> jsstring list" where
  "errors_reported [] = []"
| "errors_reported (OnError msg # es) = msg # errors_reported es"
| "errors_reported (e # es) = errors_reported es"

text \<open>Calls that neither start nor stop a source nor answer a tool call.\<close>

definition silent :: "effect list \<Rightarrow> bool" where
  "silent es \<longleftrightarrow>
     source_starts es = [] \<and> started_nodes es = [] \<and> stopped_nodes es = [] \<and> tool_responses es = []"

definition responses_for :: "jsstring option \<Rightarrow> effect list \<Rightarrow> FunctionResponse list" where
  "responses_for x es = filter (\<lambda>r. fr_id r = x) (tool_responses es)"

text \<open>Every source in the active set has been started.\<close>

definition sources_started :: "world \<Rightarrow> bool" where
  "sources_started w \<longleftrightarrow> list_all started (activeAudioSources w)"

text \<open>All six device fields are null.\<close>

definition devices_released :: "world \<Rightarrow> bool" where
  "devices_released w \<longleftrightarrow>
     microphoneStream w = None \<and> inputAudioContext w = None \<and> outputAudioContext w = None
     \<and> inputScriptProcessor w = None \<and> inputAudioSource w = None \<and> outputGainNode w = None"

subsection \<open>Concrete messages and states\<close>

definition at_clock :: "rat \<Rightarrow> reads" where
  "at_clock t = \<lparr>currentTime = t, dateNowUser = 1700000000000, dateNowJarvis = 1700000000001, hours = 9\<rparr>"

definition empty_message :: LiveServerMessage where
  "empty_message =
     \<lparr>outputTranscription = None, inputTranscription = None, turnComplete = False,
      inlineData = None, interrupted = False, toolCall = None\<rparr>"

definition output_delta :: "string \<Rightarrow> LiveServerMessage" where
  "output_delta s = empty_message\<lparr>outputTranscription := Some (Transcription (Some (js s)))\<rparr>"

definition input_delta :: "string \<Rightarrow> LiveServerMessage" where
  "input_delta s = empty_message\<lparr>inputTranscription := Some (Transcription (Some (js s)))\<rparr>"

definition both_deltas :: LiveServerMessage where
  "both_deltas =
     empty_message\<lparr>outputTranscription := Some (Transcription (Some (js ''A''))),
                   inputTranscription := Some (Transcription (Some (js ''B'')))\<rparr>"

definition audio_message :: LiveServerMessage where
  \<comment> \<open>a payload of one 16-bit frame\<close>
  "audio_message = empty_message\<lparr>inlineData := Some (js ''AAA='')\<rparr>"

definition one_frame :: AudioBuffer where
  \<comment> \<open>what that payload decodes to\<close>
  "one_frame = \<lparr>numberOfChannels = 1, buf_length = 1, sampleRate = 24000, channelData = [[0]]\<rparr>"

definition tool_call_X :: FunctionCall where
  "tool_call_X = \<lparr>fc_id = Some (js ''X''), fc_name = Some (js ''controlLight''), fc_args = js ''{}''\<rparr>"

definition tool_message :: LiveServerMessage where
  "tool_message = empty_message\<lparr>toolCall := Some (LiveServerToolCall (Some [tool_call_X]))\<rparr>"

definition garbled_interruption :: LiveServerMessage where
  \<comment> \<open>an interruption marker beside a payload that is not base64\<close>
  "garbled_interruption = empty_message\<lparr>inlineData := Some (js ''A''), interrupted := True\<rparr>"

definition garbled_tool_call :: LiveServerMessage where
  \<comment> \<open>the tool call beside a payload that is not base64\<close>
  "garbled_tool_call = tool_message\<lparr>inlineData := Some (js ''A'')\<rparr>"

definition every_field :: LiveServerMessage where
  \<comment> \<open>both deltas, a turn-complete marker, a payload of one frame, an interruption marker and
      a tool call\<close>
  "every_field =
     \<lparr>outputTranscription = Some (Transcription (Some (js ''A''))),
      inputTranscription = Some (Transcription (Some (js ''B''))),
      turnComplete = True, inlineData = Some (js ''AAA=''), interrupted = True,
      toolCall = Some (LiveServerToolCall (Some [tool_call_X]))\<rparr>"

definition bad_payload :: LiveServerMessage where
  \<comment> \<open>the same with a payload that is not base64\<close>
  "bad_payload = every_field\<lparr>inlineData := Some (js ''A'')\<rparr>"

definition connecting :: world where
  \<comment> \<open>after \<open>startConversation\<close> has acquired the devices and called \<open>connect\<close>\<close>
  "connecting = after (startConversation_continue Connects (startConversation initial))"

definition active :: world where
  \<comment> \<open>after the session has opened and its promise is fulfilled\<close>
  "active = drain (fulfil 0 (onopen connecting))"

definition restarted :: world where
  \<comment> \<open>\<open>stopConversation\<close> while connecting, a second \<open>startConversation\<close>, then both sessions
      open: the first session's promise runs the close callback registered by
      \<open>stopConversation\<close>, which sets the \<open>sessionPromise\<close> of the second session to null\<close>
  "restarted =
     drain (fulfil 1 (onopen (drain (fulfil 0 (onopen
       (after (startConversation_continue Connects
          (startConversation (after (stopConversation connecting))))))))))"

section \<open>Base64 round trip\<close>

lemma unat_b64_char:
  "n < 64 \<Longrightarrow> unat (b64_char n) =
     (if n < 26 then n + 65 else if n < 52 then n + 71 else if n < 62 then n - 4
      else if n = 62 then 43 else 47)"
  unfolding b64_char_def by (simp only: unat_of_nat split: if_splits) simp

lemma b64_val_char: "n < 64 \<Longrightarrow> b64_val (b64_char n) = Some n"
  unfolding b64_val_def Let_def unat_b64_char by (simp split: if_splits) arith

lemma b64_char_not_pad: "n < 64 \<Longrightarrow> b64_char n \<noteq> 61"
  using unat_b64_char [of n] by (auto split: if_splits)

lemma b64_char_not_ws: "n < 64 \<Longrightarrow> \<not> ascii_whitespace (b64_char n)"
  using unat_b64_char [of n] by (auto simp: ascii_whitespace_def split: if_splits)

lemma b64_sextets_bound:
  "\<forall>b \<in> set bs. b < 256 \<Longrightarrow> \<forall>n \<in> set (b64_sextets bs). n < 64"
  by (induction bs rule: b64_sextets.induct) (auto simp: less_mult_imp_div_less)

lemma b64_octets_sextets:
  "\<forall>b \<in> set bs. b < 256 \<Longrightarrow> b64_octets (b64_sextets bs) = bs"
proof (induction bs rule: b64_sextets.induct)
  case (1 a b c rest)
  have "b div 16 < 16" "c div 64 < 4" using 1(2) by (auto simp: less_mult_imp_div_less)
  then show ?case using 1 by simp
next
  case (2 a b)
  have "b div 16 < 16" using 2 by (auto simp: less_mult_imp_div_less)
  then show ?case by simp
qed simp_all

lemma length_b64_sextets:
  "length (b64_sextets bs) = 4 * (length bs div 3) + (if length bs mod 3 = 0 then 0 else length bs mod 3 + 1)"
proof (induction bs rule: b64_sextets.induct)
  case (1 a b c rest)
  have "(3 + length rest) div 3 = Suc (length rest div 3)" by simp
  then show ?case using 1 by simp
qed simp_all


lemma strip_padding_encoded:
  assumes "k \<le> 2" "length (xs @ replicate k (61::16 word)) mod 4 = 0" "\<forall>x \<in> set xs. x \<noteq> 61"
  shows "strip_padding (xs @ replicate k 61) = xs"
proof -
  have nl: "xs \<noteq> [] \<Longrightarrow> last xs \<noteq> 61" using assms(3) last_in_set by blast
  consider "k = 0" | "k = 1" | "k = 2" using assms(1) by linarith
  then show ?thesis
  proof cases
    case 1
    then show ?thesis using nl by (auto simp: strip_padding_def)
  next
    case 2
    then have "xs @ replicate k 61 = xs @ [61]" by simp
    then show ?thesis using nl assms(2) by (auto simp: strip_padding_def)
  next
    case 3
    then have r: "xs @ replicate k 61 = (xs @ [61]) @ [61]" by (simp add: numeral_2_eq_2)
    show ?thesis using assms(2) unfolding r strip_padding_def
      by (simp only: butlast_snoc last_snoc) simp
  qed
qed

lemma pad_not_ws: "\<not> ascii_whitespace 61"
  by (simp add: ascii_whitespace_def)

lemma atob_btoa:
  assumes "\<forall>c \<in> set s. unat c \<le> 255"
  shows "\<exists>e. btoa s = Inr e \<and> atob e = Inr s"
proof -
  let ?bs = "map unat s"
  let ?enc = "map b64_char (b64_sextets ?bs)"
  let ?k = "(3 - length s mod 3) mod 3"
  let ?e = "?enc @ replicate ?k 61"
  have bytes: "\<forall>b \<in> set ?bs. b < 256" using assms by auto
  have six: "\<forall>n \<in> set (b64_sextets ?bs). n < 64" by (rule b64_sextets_bound [OF bytes])
  have enc: "btoa s = Inr ?e"
    using assms by (auto simp: btoa_def list_ex_iff)
  have nows: "filter (\<lambda>c. \<not> ascii_whitespace c) ?e = ?e"
    using six pad_not_ws by (auto simp: filter_id_conv b64_char_not_ws)
  have len: "length (b64_sextets ?bs) = 4 * (length s div 3) + (if length s mod 3 = 0 then 0 else length s mod 3 + 1)"
    by (simp add: length_b64_sextets)
  have m3: "length s mod 3 = 0 \<or> length s mod 3 = 1 \<or> length s mod 3 = 2" by arith
  have len4: "length ?e mod 4 = 0" using m3 len by auto
  have k2: "?k \<le> 2" by arith
  have nopad: "\<forall>x \<in> set ?enc. x \<noteq> 61" using six by (auto simp: b64_char_not_pad)
  have strip: "strip_padding ?e = ?enc" by (rule strip_padding_encoded [OF k2 len4 nopad])
  have not1: "length ?enc mod 4 \<noteq> 1" using m3 len by auto
  have valid: "\<not> list_ex (\<lambda>c. b64_val c = None) ?enc"
    using six by (auto simp: list_ex_iff b64_val_char)
  have vals: "map (\<lambda>c. the (b64_val c)) ?enc = b64_sextets ?bs"
    using six by (simp add: map_idI b64_val_char comp_def)
  have octs: "map of_nat (b64_octets (b64_sextets ?bs)) = s"
    by (simp add: b64_octets_sextets [OF bytes] comp_def map_idI)
  have "atob ?e = Inr s"
    unfolding atob_def nows strip Let_def vals octs using not1 valid by simp
  with enc show ?thesis by blast
qed

lemma decodeBase64_encodeBase64:
  "\<exists>s. encodeBase64 b = Inr s \<and> decodeBase64 s = Inr b"
proof -
  have le: "\<forall>c \<in> set (map ucast b :: 16 word list). unat c \<le> 255"
  proof
    fix c :: "16 word" assume "c \<in> set (map ucast b)"
    then obtain x :: "8 word" where "c = ucast x" by auto
    moreover have "unat x < 256" using unsigned_less [of x, where ?'a = nat] by simp
    ultimately show "unat c \<le> 255" by (simp add: unsigned_ucast_eq take_bit_nat_eq_self)
  qed
  obtain e where e: "btoa (map ucast b) = Inr e" "atob e = Inr (map ucast b)"
    using atob_btoa [OF le] by blast
  have "map (ucast :: 16 word \<Rightarrow> 8 word) (map ucast b) = b"
    by (simp add: comp_def map_idI ucast_up_ucast_id is_up)
  then show ?thesis using e by (simp add: encodeBase64_def decodeBase64_def)
qed


text \<open>
  C10. For every byte array \<open>b\<close>, \<open>encodeBase64 b\<close> returns a string (it never throws), and
  \<open>decodeBase64\<close> of that string returns a byte array of the same length as \<open>b\<close> that
  equals \<open>b\<close> element by element.
\<close>

theorem base64_round_trip:
  "\<exists>s b'. encodeBase64 b = Inr s \<and> decodeBase64 s = Inr b'
     \<and> length b' = length b \<and> (\<forall>i < length b. b' ! i = b ! i) \<and> b' = b"
  using decodeBase64_encodeBase64 [of b] by auto

theorem base64_round_trip_witness:
  "encodeBase64 [72, 105] = Inr (js ''SGk='') \<and> decodeBase64 (js ''SGk='') = Inr [72, 105]"
proof -
  obtain s b' where *: "encodeBase64 [72, 105] = Inr s" "decodeBase64 s = Inr b'" "b' = [72, 105]"
    using base64_round_trip [of "[72, 105]"] by blast
  have "encodeBase64 [72, 105] = Inr (js ''SGk='')"
    by (simp add: js_def encodeBase64_def btoa_def b64_char_def)
  with * show ?thesis by simp
qed

section \<open>The sample conversion\<close>

lemma ToInt16_range: "- (2 ^ 15) \<le> ToInt16 v \<and> ToInt16 v < 2 ^ 15"
proof (cases v)
  case (Num q)
  have "0 \<le> js_truncate q mod 2 ^ 16" "js_truncate q mod 2 ^ 16 < 2 ^ 16"
    by simp_all
  then show ?thesis using Num by (auto simp: ToInt16_def Let_def)
qed (simp_all add: ToInt16_def)

lemma ToInt16_cong: "ToInt16 (Num q) mod 2 ^ 16 = js_truncate q mod 2 ^ 16"
  by (simp add: ToInt16_def Let_def)

lemma sint_pcm16: "sint (pcm16 x) = ToInt16 (js_times x 32768)"
proof -
  have "signed_take_bit 15 (ToInt16 (js_times x 32768)) = ToInt16 (js_times x 32768)"
    using ToInt16_range [of "js_times x 32768"] by (intro signed_take_bit_int_eq_self) simp_all
  then show ?thesis by (simp add: pcm16_def sint_sbintrunc')
qed

lemma js_truncate_bounds:
  assumes "-1 \<le> x" "x < 1"
  shows "- 32768 \<le> js_truncate (x * 32768) \<and> js_truncate (x * 32768) < 32768"
proof (cases "0 \<le> x * 32768")
  case True
  then show ?thesis using assms by (simp add: js_truncate_def le_floor_iff floor_less_iff)
next
  case False
  then show ?thesis using assms by (simp add: js_truncate_def le_ceiling_iff ceiling_less_iff)
qed

lemma ToInt16_in_range:
  assumes "-1 \<le> x" "x < 1"
  shows "ToInt16 (Num (x * 32768)) = js_truncate (x * 32768)"
proof -
  let ?t = "js_truncate (x * 32768)"
  have b: "- 32768 \<le> ?t" "?t < 32768" using js_truncate_bounds [OF assms] by simp_all
  show ?thesis
  proof (cases "0 \<le> ?t")
    case True
    then have "?t mod 2 ^ 16 = ?t" using b by simp
    then show ?thesis using b by (simp add: ToInt16_def Let_def)
  next
    case False
    have "?t mod 2 ^ 16 = (?t + 2 ^ 16) mod 2 ^ 16" by simp
    also have "\<dots> = ?t + 2 ^ 16" using b False by (intro mod_pos_pos_trivial) simp_all
    finally have "?t mod 2 ^ 16 = ?t + 2 ^ 16" .
    then show ?thesis using b False by (simp add: ToInt16_def Let_def)
  qed
qed

lemma int16_bytes: "ucast (ucast v :: 8 word) OR push_bit 8 (ucast (ucast (drop_bit 8 v) :: 8 word)) = (v :: 16 word)"
  by (rule bit_word_eqI) (auto simp: bit_simps)

lemma int16_pairs_bytes: "int16_pairs (Uint8Array_of_Int16Array ws) = ws"
  by (induction ws) (simp_all add: Uint8Array_of_Int16Array_def int16_bytes)

lemma length_bytes: "length (Uint8Array_of_Int16Array ws) = 2 * length ws"
  by (induction ws) (simp_all add: Uint8Array_of_Int16Array_def)

lemma Int16Array_view: "Int16Array_of_Uint8Array (Uint8Array_of_Int16Array ws) = Inr ws"
  by (simp add: Int16Array_of_Uint8Array_def length_bytes int16_pairs_bytes)


lemma createPcmBlob_result:
  "\<exists>d. encodeBase64 (Uint8Array_of_Int16Array (map pcm16 frame)) = Inr d
     \<and> decodeBase64 d = Inr (Uint8Array_of_Int16Array (map pcm16 frame))
     \<and> createPcmBlob frame = Inr \<lparr>blob_data = d, mimeType = js ''audio/pcm;rate=16000''\<rparr>"
  using decodeBase64_encodeBase64 [of "Uint8Array_of_Int16Array (map pcm16 frame)"]
  by (auto simp: createPcmBlob_def)

text \<open>
  C9. For every captured frame, \<open>createPcmBlob\<close> returns a chunk tagged
  \<open>audio/pcm;rate=16000\<close> whose payload is the base64 of the 16-bit samples, one per input
  sample. A finite sample \<open>x\<close> becomes the 16-bit integer congruent modulo \<open>2^16\<close> to
  \<open>x * 32768\<close> truncated towards zero: no clamping. For \<open>-1 \<le> x < 1\<close> that is the truncated
  product itself; at full scale it wraps, \<open>1.0\<close> giving \<open>-32768\<close>.
\<close>

theorem createPcmBlob_pcm16:
  "\<exists>blob bytes.
     createPcmBlob frame = Inr blob
     \<and> mimeType blob = js ''audio/pcm;rate=16000''
     \<and> decodeBase64 (blob_data blob) = Inr bytes
     \<and> Int16Array_of_Uint8Array bytes = Inr (map pcm16 frame)
     \<and> (\<forall>x. - (2 ^ 15) \<le> sint (pcm16 (Num x)) \<and> sint (pcm16 (Num x)) < 2 ^ 15
            \<and> sint (pcm16 (Num x)) mod 2 ^ 16 = js_truncate (x * 32768) mod 2 ^ 16
            \<and> (- 1 \<le> x \<and> x < 1 \<longrightarrow> sint (pcm16 (Num x)) = js_truncate (x * 32768)))
     \<and> sint (pcm16 (Num 1)) = - 32768"
proof -
  obtain d where d:
    "decodeBase64 d = Inr (Uint8Array_of_Int16Array (map pcm16 frame))"
    "createPcmBlob frame = Inr \<lparr>blob_data = d, mimeType = js ''audio/pcm;rate=16000''\<rparr>"
    using createPcmBlob_result [of frame] by blast
  have samples: "- (2 ^ 15) \<le> sint (pcm16 (Num x)) \<and> sint (pcm16 (Num x)) < 2 ^ 15
            \<and> sint (pcm16 (Num x)) mod 2 ^ 16 = js_truncate (x * 32768) mod 2 ^ 16
            \<and> (- 1 \<le> x \<and> x < 1 \<longrightarrow> sint (pcm16 (Num x)) = js_truncate (x * 32768))" for x
    using ToInt16_range [of "Num (x * 32768)"] ToInt16_cong [of "x * 32768"] ToInt16_in_range [of x]
    by (simp add: sint_pcm16)
  have full: "sint (pcm16 (Num 1)) = - 32768"
    by (simp add: sint_pcm16 ToInt16_def js_truncate_def)
  show ?thesis
    using d samples full Int16Array_view [of "map pcm16 frame"] by auto
qed

theorem createPcmBlob_pcm16_witness:
  "createPcmBlob [Num (1 / 2), Num 1]
     = Inr \<lparr>blob_data = js ''AEAAgA=='', mimeType = js ''audio/pcm;rate=16000''\<rparr>
   \<and> sint (pcm16 (Num (1 / 2))) = 16384 \<and> sint (pcm16 (Num 1)) = - 32768
   \<and> (\<exists>bytes. decodeBase64 (js ''AEAAgA=='') = Inr bytes
         \<and> Int16Array_of_Uint8Array bytes = Inr [pcm16 (Num (1 / 2)), pcm16 (Num 1)])"
proof -
  have blob: "createPcmBlob [Num (1 / 2), Num 1]
     = Inr \<lparr>blob_data = js ''AEAAgA=='', mimeType = js ''audio/pcm;rate=16000''\<rparr>"
    by code_simp
  have half: "js_truncate (1 / 2 * 32768) = 16384"
    by (simp add: js_truncate_def)
  show ?thesis
    using createPcmBlob_pcm16 [of "[Num (1 / 2), Num 1]"] blob half by auto
qed

section \<open>How each operation changes the state\<close>

lemma emit_fields [simp]:
  "isConnecting (emit e w) = isConnecting w"
  "isConnected (emit e w) = isConnected w"
  "transcriptionHistory (emit e w) = transcriptionHistory w"
  "currentInputTranscription (emit e w) = currentInputTranscription w"
  "currentOutputTranscription (emit e w) = currentOutputTranscription w"
  "microphoneStream (emit e w) = microphoneStream w"
  "inputAudioContext (emit e w) = inputAudioContext w"
  "outputAudioContext (emit e w) = outputAudioContext w"
  "inputScriptProcessor (emit e w) = inputScriptProcessor w"
  "inputAudioSource (emit e w) = inputAudioSource w"
  "outputGainNode (emit e w) = outputGainNode w"
  "playbackNextStartTime (emit e w) = playbackNextStartTime w"
  "activeAudioSources (emit e w) = activeAudioSources w"
  "sessionPromise (emit e w) = sessionPromise w"
  "promises (emit e w) = promises w"
  "promiseCount (emit e w) = promiseCount w"
  "microtasks (emit e w) = microtasks w"
  "nodesCreated (emit e w) = nodesCreated w"
  by (simp_all add: emit_def)

lemma then_session_fields [simp]:
  "isConnecting (then_session r w) = isConnecting w"
  "isConnected (then_session r w) = isConnected w"
  "transcriptionHistory (then_session r w) = transcriptionHistory w"
  "currentInputTranscription (then_session r w) = currentInputTranscription w"
  "currentOutputTranscription (then_session r w) = currentOutputTranscription w"
  "microphoneStream (then_session r w) = microphoneStream w"
  "inputAudioContext (then_session r w) = inputAudioContext w"
  "outputAudioContext (then_session r w) = outputAudioContext w"
  "inputScriptProcessor (then_session r w) = inputScriptProcessor w"
  "inputAudioSource (then_session r w) = inputAudioSource w"
  "outputGainNode (then_session r w) = outputGainNode w"
  "playbackNextStartTime (then_session r w) = playbackNextStartTime w"
  "activeAudioSources (then_session r w) = activeAudioSources w"
  "sessionPromise (then_session r w) = sessionPromise w"
  "promiseCount (then_session r w) = promiseCount w"
  "nodesCreated (then_session r w) = nodesCreated w"
  "trace (then_session r w) = trace w"
  by (simp_all add: then_session_def split: option.splits promise_state.splits)

lemma stop_microphone_fields [simp]:
  "isConnecting (stop_microphone w) = isConnecting w"
  "isConnected (stop_microphone w) = isConnected w"
  "transcriptionHistory (stop_microphone w) = transcriptionHistory w"
  "currentInputTranscription (stop_microphone w) = currentInputTranscription w"
  "currentOutputTranscription (stop_microphone w) = currentOutputTranscription w"
  "inputAudioContext (stop_microphone w) = inputAudioContext w"
  "outputAudioContext (stop_microphone w) = outputAudioContext w"
  "inputScriptProcessor (stop_microphone w) = inputScriptProcessor w"
  "inputAudioSource (stop_microphone w) = inputAudioSource w"
  "outputGainNode (stop_microphone w) = outputGainNode w"
  "playbackNextStartTime (stop_microphone w) = playbackNextStartTime w"
  "activeAudioSources (stop_microphone w) = activeAudioSources w"
  "sessionPromise (stop_microphone w) = sessionPromise w"
  "promises (stop_microphone w) = promises w"
  "promiseCount (stop_microphone w) = promiseCount w"
  "microtasks (stop_microphone w) = microtasks w"
  "nodesCreated (stop_microphone w) = nodesCreated w"
  by (simp_all add: stop_microphone_def)

lemma stop_microphone_released [simp]: "microphoneStream (stop_microphone w) = None"
  by (simp add: stop_microphone_def)

lemma stop_microphone_idle: "microphoneStream w = None \<Longrightarrow> stop_microphone w = w"
  by (simp add: stop_microphone_def)

lemma close_input_context_fields [simp]:
  "isConnecting (close_input_context w) = isConnecting w"
  "isConnected (close_input_context w) = isConnected w"
  "transcriptionHistory (close_input_context w) = transcriptionHistory w"
  "currentInputTranscription (close_input_context w) = currentInputTranscription w"
  "currentOutputTranscription (close_input_context w) = currentOutputTranscription w"
  "microphoneStream (close_input_context w) = microphoneStream w"
  "outputAudioContext (close_input_context w) = outputAudioContext w"
  "inputScriptProcessor (close_input_context w) = inputScriptProcessor w"
  "inputAudioSource (close_input_context w) = inputAudioSource w"
  "outputGainNode (close_input_context w) = outputGainNode w"
  "playbackNextStartTime (close_input_context w) = playbackNextStartTime w"
  "activeAudioSources (close_input_context w) = activeAudioSources w"
  "sessionPromise (close_input_context w) = sessionPromise w"
  "promises (close_input_context w) = promises w"
  "promiseCount (close_input_context w) = promiseCount w"
  "microtasks (close_input_context w) = microtasks w"
  "nodesCreated (close_input_context w) = nodesCreated w"
  by (simp_all add: close_input_context_def)

lemma close_input_context_released [simp]: "inputAudioContext (close_input_context w) = None"
  by (simp add: close_input_context_def)

lemma close_input_context_idle: "inputAudioContext w = None \<Longrightarrow> close_input_context w = w"
  by (simp add: close_input_context_def)

lemma close_output_context_fields [simp]:
  "isConnecting (close_output_context w) = isConnecting w"
  "isConnected (close_output_context w) = isConnected w"
  "transcriptionHistory (close_output_context w) = transcriptionHistory w"
  "currentInputTranscription (close_output_context w) = currentInputTranscription w"
  "currentOutputTranscription (close_output_context w) = currentOutputTranscription w"
  "microphoneStream (close_output_context w) = microphoneStream w"
  "inputAudioContext (close_output_context w) = inputAudioContext w"
  "inputScriptProcessor (close_output_context w) = inputScriptProcessor w"
  "inputAudioSource (close_output_context w) = inputAudioSource w"
  "outputGainNode (close_output_context w) = outputGainNode w"
  "playbackNextStartTime (close_output_context w) = playbackNextStartTime w"
  "activeAudioSources (close_output_context w) = activeAudioSources w"
  "sessionPromise (close_output_context w) = sessionPromise w"
  "promises (close_output_context w) = promises w"
  "promiseCount (close_output_context w) = promiseCount w"
  "microtasks (close_output_context w) = microtasks w"
  "nodesCreated (close_output_context w) = nodesCreated w"
  by (simp_all add: close_output_context_def)

lemma close_output_context_released [simp]: "outputAudioContext (close_output_context w) = None"
  by (simp add: close_output_context_def)

lemma close_output_context_idle: "outputAudioContext w = None \<Longrightarrow> close_output_context w = w"
  by (simp add: close_output_context_def)

lemma disconnect_processor_fields [simp]:
  "isConnecting (disconnect_processor w) = isConnecting w"
  "isConnected (disconnect_processor w) = isConnected w"
  "transcriptionHistory (disconnect_processor w) = transcriptionHistory w"
  "currentInputTranscription (disconnect_processor w) = currentInputTranscription w"
  "currentOutputTranscription (disconnect_processor w) = currentOutputTranscription w"
  "microphoneStream (disconnect_processor w) = microphoneStream w"
  "inputAudioContext (disconnect_processor w) = inputAudioContext w"
  "outputAudioContext (disconnect_processor w) = outputAudioContext w"
  "inputAudioSource (disconnect_processor w) = inputAudioSource w"
  "outputGainNode (disconnect_processor w) = outputGainNode w"
  "playbackNextStartTime (disconnect_processor w) = playbackNextStartTime w"
  "activeAudioSources (disconnect_processor w) = activeAudioSources w"
  "sessionPromise (disconnect_processor w) = sessionPromise w"
  "promises (disconnect_processor w) = promises w"
  "promiseCount (disconnect_processor w) = promiseCount w"
  "microtasks (disconnect_processor w) = microtasks w"
  "nodesCreated (disconnect_processor w) = nodesCreated w"
  by (simp_all add: disconnect_processor_def)

lemma disconnect_processor_released [simp]: "inputScriptProcessor (disconnect_processor w) = None"
  by (simp add: disconnect_processor_def)

lemma disconnect_processor_idle: "inputScriptProcessor w = None \<Longrightarrow> disconnect_processor w = w"
  by (simp add: disconnect_processor_def)

lemma disconnect_input_source_fields [simp]:
  "isConnecting (disconnect_input_source w) = isConnecting w"
  "isConnected (disconnect_input_source w) = isConnected w"
  "transcriptionHistory (disconnect_input_source w) = transcriptionHistory w"
  "currentInputTranscription (disconnect_input_source w) = currentInputTranscription w"
  "currentOutputTranscription (disconnect_input_source w) = currentOutputTranscription w"
  "microphoneStream (disconnect_input_source w) = microphoneStream w"
  "inputAudioContext (disconnect_input_source w) = inputAudioContext w"
  "outputAudioContext (disconnect_input_source w) = outputAudioContext w"
  "inputScriptProcessor (disconnect_input_source w) = inputScriptProcessor w"
  "outputGainNode (disconnect_input_source w) = outputGainNode w"
  "playbackNextStartTime (disconnect_input_source w) = playbackNextStartTime w"
  "activeAudioSources (disconnect_input_source w) = activeAudioSources w"
  "sessionPromise (disconnect_input_source w) = sessionPromise w"
  "promises (disconnect_input_source w) = promises w"
  "promiseCount (disconnect_input_source w) = promiseCount w"
  "microtasks (disconnect_input_source w) = microtasks w"
  "nodesCreated (disconnect_input_source w) = nodesCreated w"
  by (simp_all add: disconnect_input_source_def)

lemma disconnect_input_source_released [simp]: "inputAudioSource (disconnect_input_source w) = None"
  by (simp add: disconnect_input_source_def)

lemma disconnect_input_source_idle: "inputAudioSource w = None \<Longrightarrow> disconnect_input_source w = w"
  by (simp add: disconnect_input_source_def)

lemma disconnect_gain_fields [simp]:
  "isConnecting (disconnect_gain w) = isConnecting w"
  "isConnected (disconnect_gain w) = isConnected w"
  "transcriptionHistory (disconnect_gain w) = transcriptionHistory w"
  "currentInputTranscription (disconnect_gain w) = currentInputTranscription w"
  "currentOutputTranscription (disconnect_gain w) = currentOutputTranscription w"
  "microphoneStream (disconnect_gain w) = microphoneStream w"
  "inputAudioContext (disconnect_gain w) = inputAudioContext w"
  "outputAudioContext (disconnect_gain w) = outputAudioContext w"
  "inputScriptProcessor (disconnect_gain w) = inputScriptProcessor w"
  "inputAudioSource (disconnect_gain w) = inputAudioSource w"
  "playbackNextStartTime (disconnect_gain w) = playbackNextStartTime w"
  "activeAudioSources (disconnect_gain w) = activeAudioSources w"
  "sessionPromise (disconnect_gain w) = sessionPromise w"
  "promises (disconnect_gain w) = promises w"
  "promiseCount (disconnect_gain w) = promiseCount w"
  "microtasks (disconnect_gain w) = microtasks w"
  "nodesCreated (disconnect_gain w) = nodesCreated w"
  by (simp_all add: disconnect_gain_def)

lemma disconnect_gain_released [simp]: "outputGainNode (disconnect_gain w) = None"
  by (simp add: disconnect_gain_def)

lemma disconnect_gain_idle: "outputGainNode w = None \<Longrightarrow> disconnect_gain w = w"
  by (simp add: disconnect_gain_def)

lemma fulfil_fields [simp]:
  "isConnecting (fulfil p w) = isConnecting w"
  "isConnected (fulfil p w) = isConnected w"
  "transcriptionHistory (fulfil p w) = transcriptionHistory w"
  "currentInputTranscription (fulfil p w) = currentInputTranscription w"
  "currentOutputTranscription (fulfil p w) = currentOutputTranscription w"
  "microphoneStream (fulfil p w) = microphoneStream w"
  "inputAudioContext (fulfil p w) = inputAudioContext w"
  "outputAudioContext (fulfil p w) = outputAudioContext w"
  "inputScriptProcessor (fulfil p w) = inputScriptProcessor w"
  "inputAudioSource (fulfil p w) = inputAudioSource w"
  "outputGainNode (fulfil p w) = outputGainNode w"
  "playbackNextStartTime (fulfil p w) = playbackNextStartTime w"
  "activeAudioSources (fulfil p w) = activeAudioSources w"
  "sessionPromise (fulfil p w) = sessionPromise w"
  "promiseCount (fulfil p w) = promiseCount w"
  "nodesCreated (fulfil p w) = nodesCreated w"
  "trace (fulfil p w) = trace w"
  by (simp_all add: fulfil_def)

lemma reject_fields [simp]:
  "isConnecting (reject p w) = isConnecting w"
  "isConnected (reject p w) = isConnected w"
  "transcriptionHistory (reject p w) = transcriptionHistory w"
  "currentInputTranscription (reject p w) = currentInputTranscription w"
  "currentOutputTranscription (reject p w) = currentOutputTranscription w"
  "microphoneStream (reject p w) = microphoneStream w"
  "inputAudioContext (reject p w) = inputAudioContext w"
  "outputAudioContext (reject p w) = outputAudioContext w"
  "inputScriptProcessor (reject p w) = inputScriptProcessor w"
  "inputAudioSource (reject p w) = inputAudioSource w"
  "outputGainNode (reject p w) = outputGainNode w"
  "playbackNextStartTime (reject p w) = playbackNextStartTime w"
  "activeAudioSources (reject p w) = activeAudioSources w"
  "sessionPromise (reject p w) = sessionPromise w"
  "promiseCount (reject p w) = promiseCount w"
  "microtasks (reject p w) = microtasks w"
  "nodesCreated (reject p w) = nodesCreated w"
  "trace (reject p w) = trace w"
  by (simp_all add: reject_def)

lemma onended_fields [simp]:
  "isConnecting (onended s w) = isConnecting w"
  "isConnected (onended s w) = isConnected w"
  "transcriptionHistory (onended s w) = transcriptionHistory w"
  "currentInputTranscription (onended s w) = currentInputTranscription w"
  "currentOutputTranscription (onended s w) = currentOutputTranscription w"
  "microphoneStream (onended s w) = microphoneStream w"
  "inputAudioContext (onended s w) = inputAudioContext w"
  "outputAudioContext (onended s w) = outputAudioContext w"
  "inputScriptProcessor (onended s w) = inputScriptProcessor w"
  "inputAudioSource (onended s w) = inputAudioSource w"
  "outputGainNode (onended s w) = outputGainNode w"
  "playbackNextStartTime (onended s w) = playbackNextStartTime w"
  "sessionPromise (onended s w) = sessionPromise w"
  "promises (onended s w) = promises w"
  "promiseCount (onended s w) = promiseCount w"
  "microtasks (onended s w) = microtasks w"
  "nodesCreated (onended s w) = nodesCreated w"
  "trace (onended s w) = trace w"
  by (simp_all add: onended_def)

lemma process_transcription_fields [simp]:
  "isConnecting (process_transcription m w) = isConnecting w"
  "isConnected (process_transcription m w) = isConnected w"
  "transcriptionHistory (process_transcription m w) = transcriptionHistory w"
  "microphoneStream (process_transcription m w) = microphoneStream w"
  "inputAudioContext (process_transcription m w) = inputAudioContext w"
  "outputAudioContext (process_transcription m w) = outputAudioContext w"
  "inputScriptProcessor (process_transcription m w) = inputScriptProcessor w"
  "inputAudioSource (process_transcription m w) = inputAudioSource w"
  "outputGainNode (process_transcription m w) = outputGainNode w"
  "playbackNextStartTime (process_transcription m w) = playbackNextStartTime w"
  "activeAudioSources (process_transcription m w) = activeAudioSources w"
  "sessionPromise (process_transcription m w) = sessionPromise w"
  "promises (process_transcription m w) = promises w"
  "promiseCount (process_transcription m w) = promiseCount w"
  "microtasks (process_transcription m w) = microtasks w"
  "nodesCreated (process_transcription m w) = nodesCreated w"
  by (simp_all add: process_transcription_def Let_def split: option.splits)

lemma process_turn_complete_fields [simp]:
  "isConnecting (process_turn_complete env m w) = isConnecting w"
  "isConnected (process_turn_complete env m w) = isConnected w"
  "microphoneStream (process_turn_complete env m w) = microphoneStream w"
  "inputAudioContext (process_turn_complete env m w) = inputAudioContext w"
  "outputAudioContext (process_turn_complete env m w) = outputAudioContext w"
  "inputScriptProcessor (process_turn_complete env m w) = inputScriptProcessor w"
  "inputAudioSource (process_turn_complete env m w) = inputAudioSource w"
  "outputGainNode (process_turn_complete env m w) = outputGainNode w"
  "playbackNextStartTime (process_turn_complete env m w) = playbackNextStartTime w"
  "activeAudioSources (process_turn_complete env m w) = activeAudioSources w"
  "sessionPromise (process_turn_complete env m w) = sessionPromise w"
  "promises (process_turn_complete env m w) = promises w"
  "promiseCount (process_turn_complete env m w) = promiseCount w"
  "microtasks (process_turn_complete env m w) = microtasks w"
  "nodesCreated (process_turn_complete env m w) = nodesCreated w"
  "trace (process_turn_complete env m w) = trace w"
  by (simp_all add: process_turn_complete_def Let_def)

lemma startConversation_fields [simp]:
  "isConnected (startConversation w) = isConnected w"
  "microphoneStream (startConversation w) = microphoneStream w"
  "inputAudioContext (startConversation w) = inputAudioContext w"
  "outputAudioContext (startConversation w) = outputAudioContext w"
  "inputScriptProcessor (startConversation w) = inputScriptProcessor w"
  "inputAudioSource (startConversation w) = inputAudioSource w"
  "outputGainNode (startConversation w) = outputGainNode w"
  "sessionPromise (startConversation w) = sessionPromise w"
  "promises (startConversation w) = promises w"
  "promiseCount (startConversation w) = promiseCount w"
  "microtasks (startConversation w) = microtasks w"
  "nodesCreated (startConversation w) = nodesCreated w"
  by (simp_all add: startConversation_def)

lemma onopen_fields [simp]:
  "transcriptionHistory (onopen w) = transcriptionHistory w"
  "currentInputTranscription (onopen w) = currentInputTranscription w"
  "currentOutputTranscription (onopen w) = currentOutputTranscription w"
  "microphoneStream (onopen w) = microphoneStream w"
  "inputAudioContext (onopen w) = inputAudioContext w"
  "outputAudioContext (onopen w) = outputAudioContext w"
  "outputGainNode (onopen w) = outputGainNode w"
  "playbackNextStartTime (onopen w) = playbackNextStartTime w"
  "activeAudioSources (onopen w) = activeAudioSources w"
  "sessionPromise (onopen w) = sessionPromise w"
  "promises (onopen w) = promises w"
  "promiseCount (onopen w) = promiseCount w"
  "microtasks (onopen w) = microtasks w"
  "nodesCreated (onopen w) = nodesCreated w"
  "trace (onopen w) = trace w"
  by (simp_all add: onopen_def Let_def)

lemma acquire_fields [simp]:
  "isConnecting (acquire s w) = isConnecting w"
  "isConnected (acquire s w) = isConnected w"
  "transcriptionHistory (acquire s w) = transcriptionHistory w"
  "currentInputTranscription (acquire s w) = currentInputTranscription w"
  "currentOutputTranscription (acquire s w) = currentOutputTranscription w"
  "playbackNextStartTime (acquire s w) = playbackNextStartTime w"
  "activeAudioSources (acquire s w) = activeAudioSources w"
  "microtasks (acquire s w) = microtasks w"
  "nodesCreated (acquire s w) = nodesCreated w"
  "trace (acquire s w) = trace w"
  by (cases s; simp)+

lemma fold_acquire_fields [simp]:
  "isConnecting (fold acquire ss w) = isConnecting w"
  "isConnected (fold acquire ss w) = isConnected w"
  "transcriptionHistory (fold acquire ss w) = transcriptionHistory w"
  "currentInputTranscription (fold acquire ss w) = currentInputTranscription w"
  "currentOutputTranscription (fold acquire ss w) = currentOutputTranscription w"
  "playbackNextStartTime (fold acquire ss w) = playbackNextStartTime w"
  "activeAudioSources (fold acquire ss w) = activeAudioSources w"
  "microtasks (fold acquire ss w) = microtasks w"
  "nodesCreated (fold acquire ss w) = nodesCreated w"
  "trace (fold acquire ss w) = trace w"
  by (induction ss arbitrary: w; simp)+

lemma run_reaction_fields [simp]:
  "isConnecting (run_reaction pr w) = isConnecting w"
  "isConnected (run_reaction pr w) = isConnected w"
  "transcriptionHistory (run_reaction pr w) = transcriptionHistory w"
  "currentInputTranscription (run_reaction pr w) = currentInputTranscription w"
  "currentOutputTranscription (run_reaction pr w) = currentOutputTranscription w"
  "microphoneStream (run_reaction pr w) = microphoneStream w"
  "inputAudioContext (run_reaction pr w) = inputAudioContext w"
  "outputAudioContext (run_reaction pr w) = outputAudioContext w"
  "inputScriptProcessor (run_reaction pr w) = inputScriptProcessor w"
  "inputAudioSource (run_reaction pr w) = inputAudioSource w"
  "outputGainNode (run_reaction pr w) = outputGainNode w"
  "playbackNextStartTime (run_reaction pr w) = playbackNextStartTime w"
  "activeAudioSources (run_reaction pr w) = activeAudioSources w"
  "promises (run_reaction pr w) = promises w"
  "promiseCount (run_reaction pr w) = promiseCount w"
  "microtasks (run_reaction pr w) = microtasks w"
  "nodesCreated (run_reaction pr w) = nodesCreated w"
  by (cases pr, rename_tac p r, case_tac r; simp)+

lemma fold_run_reaction_fields [simp]:
  "isConnecting (fold run_reaction ms w) = isConnecting w"
  "isConnected (fold run_reaction ms w) = isConnected w"
  "transcriptionHistory (fold run_reaction ms w) = transcriptionHistory w"
  "currentInputTranscription (fold run_reaction ms w) = currentInputTranscription w"
  "currentOutputTranscription (fold run_reaction ms w) = currentOutputTranscription w"
  "microphoneStream (fold run_reaction ms w) = microphoneStream w"
  "inputAudioContext (fold run_reaction ms w) = inputAudioContext w"
  "outputAudioContext (fold run_reaction ms w) = outputAudioContext w"
  "inputScriptProcessor (fold run_reaction ms w) = inputScriptProcessor w"
  "inputAudioSource (fold run_reaction ms w) = inputAudioSource w"
  "outputGainNode (fold run_reaction ms w) = outputGainNode w"
  "playbackNextStartTime (fold run_reaction ms w) = playbackNextStartTime w"
  "activeAudioSources (fold run_reaction ms w) = activeAudioSources w"
  "promises (fold run_reaction ms w) = promises w"
  "promiseCount (fold run_reaction ms w) = promiseCount w"
  "microtasks (fold run_reaction ms w) = microtasks w"
  "nodesCreated (fold run_reaction ms w) = nodesCreated w"
  by (induction ms arbitrary: w; simp)+

lemma drain_fields [simp]:
  "isConnecting (drain w) = isConnecting w"
  "isConnected (drain w) = isConnected w"
  "transcriptionHistory (drain w) = transcriptionHistory w"
  "currentInputTranscription (drain w) = currentInputTranscription w"
  "currentOutputTranscription (drain w) = currentOutputTranscription w"
  "microphoneStream (drain w) = microphoneStream w"
  "inputAudioContext (drain w) = inputAudioContext w"
  "outputAudioContext (drain w) = outputAudioContext w"
  "inputScriptProcessor (drain w) = inputScriptProcessor w"
  "inputAudioSource (drain w) = inputAudioSource w"
  "outputGainNode (drain w) = outputGainNode w"
  "playbackNextStartTime (drain w) = playbackNextStartTime w"
  "activeAudioSources (drain w) = activeAudioSources w"
  "promises (drain w) = promises w"
  "promiseCount (drain w) = promiseCount w"
  "microtasks (drain w) = []"
  "nodesCreated (drain w) = nodesCreated w"
  by (simp_all add: drain_def)

lemma fold_then_session_fields [simp]:
  "isConnecting (fold (\<lambda>x. then_session (g x)) xs w) = isConnecting w"
  "isConnected (fold (\<lambda>x. then_session (g x)) xs w) = isConnected w"
  "transcriptionHistory (fold (\<lambda>x. then_session (g x)) xs w) = transcriptionHistory w"
  "currentInputTranscription (fold (\<lambda>x. then_session (g x)) xs w) = currentInputTranscription w"
  "currentOutputTranscription (fold (\<lambda>x. then_session (g x)) xs w) = currentOutputTranscription w"
  "microphoneStream (fold (\<lambda>x. then_session (g x)) xs w) = microphoneStream w"
  "inputAudioContext (fold (\<lambda>x. then_session (g x)) xs w) = inputAudioContext w"
  "outputAudioContext (fold (\<lambda>x. then_session (g x)) xs w) = outputAudioContext w"
  "inputScriptProcessor (fold (\<lambda>x. then_session (g x)) xs w) = inputScriptProcessor w"
  "inputAudioSource (fold (\<lambda>x. then_session (g x)) xs w) = inputAudioSource w"
  "outputGainNode (fold (\<lambda>x. then_session (g x)) xs w) = outputGainNode w"
  "playbackNextStartTime (fold (\<lambda>x. then_session (g x)) xs w) = playbackNextStartTime w"
  "activeAudioSources (fold (\<lambda>x. then_session (g x)) xs w) = activeAudioSources w"
  "sessionPromise (fold (\<lambda>x. then_session (g x)) xs w) = sessionPromise w"
  "promiseCount (fold (\<lambda>x. then_session (g x)) xs w) = promiseCount w"
  "nodesCreated (fold (\<lambda>x. then_session (g x)) xs w) = nodesCreated w"
  "trace (fold (\<lambda>x. then_session (g x)) xs w) = trace w"
  by (induction xs arbitrary: w; simp)+

lemma after_simps [simp]:
  "after (Inr w) = w"
  "after (Inl (e, w)) = w"
  by (simp_all add: after_def)

lemma and_then_simps [simp]:
  "and_then (Inr w) f = f w"
  "and_then (Inl x) f = Inl x"
  by (simp_all add: and_then_def)

lemma stop_sources_started:
  "list_all started xs \<Longrightarrow>
     stop_sources xs w = Inr (w\<lparr>trace := trace w @ map (\<lambda>s. SourceStop (node_id s)) xs\<rparr>)"
  by (induction xs arbitrary: w) (simp_all add: emit_def)

lemma stop_sources_Inr_started:
  "stop_sources xs w = Inr w1 \<Longrightarrow> list_all started xs"
  by (induction xs arbitrary: w) (auto split: if_splits)

lemma stop_sources_Inr:
  "stop_sources xs w = Inr w1 \<Longrightarrow>
     list_all started xs \<and> w1 = w\<lparr>trace := trace w @ map (\<lambda>s. SourceStop (node_id s)) xs\<rparr>"
  using stop_sources_Inr_started [of xs w w1] stop_sources_started [of xs w] by auto

lemma source_starts_append [simp]:
  "source_starts (xs @ ys) = source_starts xs @ source_starts ys"
  by (induction xs rule: source_starts.induct) simp_all

lemma started_nodes_append [simp]:
  "started_nodes (xs @ ys) = started_nodes xs @ started_nodes ys"
  by (induction xs rule: started_nodes.induct) simp_all

lemma stopped_nodes_append [simp]:
  "stopped_nodes (xs @ ys) = stopped_nodes xs @ stopped_nodes ys"
  by (induction xs rule: stopped_nodes.induct) simp_all

lemma tool_responses_append [simp]:
  "tool_responses (xs @ ys) = tool_responses xs @ tool_responses ys"
  by (induction xs rule: tool_responses.induct) simp_all

lemma errors_reported_append [simp]:
  "errors_reported (xs @ ys) = errors_reported xs @ errors_reported ys"
  by (induction xs rule: errors_reported.induct) simp_all

lemma stops_projections [simp]:
  "stopped_nodes (map (\<lambda>s. SourceStop (node_id s)) xs) = map node_id xs"
  "source_starts (map (\<lambda>s. SourceStop (node_id s)) xs) = []"
  "started_nodes (map (\<lambda>s. SourceStop (node_id s)) xs) = []"
  "tool_responses (map (\<lambda>s. SourceStop (node_id s)) xs) = []"
  by (induction xs; simp)+

lemma calls_between_append [simp]:
  "trace w1 = trace w @ es \<Longrightarrow> calls_between w w1 = es"
  by (simp add: calls_between_def)

lemma after_stop_sources:
  "\<exists>ys :: AudioBufferSourceNode list. after (stop_sources xs w) = w\<lparr>trace := trace w @ map (\<lambda>s. SourceStop (node_id s)) ys\<rparr>"
proof (induction xs arbitrary: w)
  case Nil
  show ?case by (rule exI [of _ "[]"]) simp
next
  case (Cons s xs)
  show ?case
  proof (cases "started s")
    case True
    obtain ys :: "AudioBufferSourceNode list" where "after (stop_sources xs (emit (SourceStop (node_id s)) w))
        = (emit (SourceStop (node_id s)) w)
            \<lparr>trace := trace (emit (SourceStop (node_id s)) w) @ map (\<lambda>s. SourceStop (node_id s)) ys\<rparr>"
      using Cons [of "emit (SourceStop (node_id s)) w"] by blast
    then show ?thesis using True
      by (intro exI [of _ "s # ys"]) (simp add: emit_def)
  next
    case False
    then show ?thesis by (intro exI [of _ "[]"]) simp
  qed
qed

lemma inbound_buffer_Some:
  "inbound_buffer m w = Some b \<longleftrightarrow>
     (\<exists>d bytes. inlineData m = Some d \<and> d \<noteq> [] \<and> outputAudioContext w \<noteq> None
        \<and> outputGainNode w \<noteq> None \<and> decodeBase64 d = Inr bytes
        \<and> decodeAudioData bytes 24000 1 = Inr b)"
  unfolding inbound_buffer_def by (auto split: option.splits sum.splits)

lemma process_audio_Some:
  assumes "inbound_buffer m w = Some b"
  shows "process_audio env m w =
     Inr (w\<lparr>playbackNextStartTime := max (playbackNextStartTime w) (currentTime env) + duration b,
            activeAudioSources :=
              Set_add \<lparr>node_id = nodesCreated w, started = True\<rparr> (activeAudioSources w),
            nodesCreated := Suc (nodesCreated w),
            trace := trace w @ [SourceStart (nodesCreated w)
                                  (max (playbackNextStartTime w) (currentTime env)) (duration b),
                                OnAudioPlayback]\<rparr>)"
proof -
  obtain d bytes where "inlineData m = Some d" "d \<noteq> []" "outputAudioContext w \<noteq> None"
    "outputGainNode w \<noteq> None" "decodeBase64 d = Inr bytes" "decodeAudioData bytes 24000 1 = Inr b"
    using assms unfolding inbound_buffer_Some by blast
  then show ?thesis
    by (simp add: process_audio_def playAudioBuffer_def emit_def Let_def)
qed

lemma process_audio_None:
  assumes "inbound_buffer m w = None"
  shows "after (process_audio env m w) = w"
proof (cases "inlineData m")
  case None
  then show ?thesis by (simp add: process_audio_def)
next
  case (Some d)
  show ?thesis
  proof (cases "d \<noteq> [] \<and> outputAudioContext w \<noteq> None \<and> outputGainNode w \<noteq> None")
    case False
    then show ?thesis using Some by (auto simp: process_audio_def)
  next
    case True
    show ?thesis
    proof (cases "decodeBase64 d")
      case (Inl e)
      then show ?thesis using Some True by (simp add: process_audio_def)
    next
      case (Inr bytes)
      then obtain e where "decodeAudioData bytes 24000 1 = Inl e"
        using assms Some True by (cases "decodeAudioData bytes 24000 1") (auto simp: inbound_buffer_def)
      then show ?thesis using Some True Inr by (simp add: process_audio_def)
    qed
  qed
qed

lemma process_audio_None_decodes:
  assumes "inbound_buffer m w = None" "decodes m w"
  shows "process_audio env m w = Inr w"
proof (cases "inlineData m")
  case None
  then show ?thesis by (simp add: process_audio_def)
next
  case (Some d)
  then have "\<not> (d \<noteq> [] \<and> outputAudioContext w \<noteq> None \<and> outputGainNode w \<noteq> None)"
    using assms by (auto simp: decodes_def)
  then show ?thesis using Some by (auto simp: process_audio_def)
qed


lemma after_stop_sources_fields [simp]:
  "isConnecting (after (stop_sources xs w)) = isConnecting w"
  "isConnected (after (stop_sources xs w)) = isConnected w"
  "transcriptionHistory (after (stop_sources xs w)) = transcriptionHistory w"
  "currentInputTranscription (after (stop_sources xs w)) = currentInputTranscription w"
  "currentOutputTranscription (after (stop_sources xs w)) = currentOutputTranscription w"
  "microphoneStream (after (stop_sources xs w)) = microphoneStream w"
  "inputAudioContext (after (stop_sources xs w)) = inputAudioContext w"
  "outputAudioContext (after (stop_sources xs w)) = outputAudioContext w"
  "inputScriptProcessor (after (stop_sources xs w)) = inputScriptProcessor w"
  "inputAudioSource (after (stop_sources xs w)) = inputAudioSource w"
  "outputGainNode (after (stop_sources xs w)) = outputGainNode w"
  "playbackNextStartTime (after (stop_sources xs w)) = playbackNextStartTime w"
  "activeAudioSources (after (stop_sources xs w)) = activeAudioSources w"
  "sessionPromise (after (stop_sources xs w)) = sessionPromise w"
  "promises (after (stop_sources xs w)) = promises w"
  "promiseCount (after (stop_sources xs w)) = promiseCount w"
  "microtasks (after (stop_sources xs w)) = microtasks w"
  "nodesCreated (after (stop_sources xs w)) = nodesCreated w"
  using after_stop_sources [of xs w] by auto

lemma after_and_then:
  "after (and_then r f) = (case r of Inl x \<Rightarrow> snd x | Inr w \<Rightarrow> after (f w))"
  by (cases r) (auto simp: after_def and_then_def)

lemma after_Inl_snd: "r = Inl x \<Longrightarrow> after r = snd x"
  by (cases x) simp

text \<open>The three ways the message handler can end.\<close>

lemma onmessage_cases:
  fixes env m w
  defines "w2 \<equiv> process_turn_complete env m (process_transcription m w)"
  obtains
    (audio_throws) x where "process_audio env m w2 = Inl x" "onmessage env m w = Inl x"
  | (interruption_throws) w3 x where "process_audio env m w2 = Inr w3"
      "handle_interruption m w3 = Inl x" "onmessage env m w = Inl x"
  | (tool_calls) w3 w4 where "process_audio env m w2 = Inr w3"
      "handle_interruption m w3 = Inr w4" "onmessage env m w = handle_tool_calls m w4"
proof (cases "process_audio env m w2")
  case (Inl x)
  then show ?thesis using audio_throws by (simp add: onmessage_def w2_def)
next
  case (Inr w3)
  note pa = this
  show ?thesis
  proof (cases "handle_interruption m w3")
    case (Inl x)
    then show ?thesis using interruption_throws pa by (simp add: onmessage_def w2_def)
  next
    case (Inr w4)
    then show ?thesis using tool_calls pa by (simp add: onmessage_def w2_def)
  qed
qed

lemma handle_interruption_after:
  "\<exists>ys :: AudioBufferSourceNode list. \<exists>w1.
     after (handle_interruption m w) = w1\<lparr>trace := trace w @ map (\<lambda>s. SourceStop (node_id s)) ys\<rparr>
     \<and> (w1 = w \<or> w1 = w\<lparr>activeAudioSources := [], playbackNextStartTime := 0\<rparr>)"
proof (cases "interrupted m")
  case False
  then show ?thesis
    by (intro exI [of _ "[]"] exI [of _ w]) (simp add: handle_interruption_def)
next
  case True
  obtain ys :: "AudioBufferSourceNode list" where ys:
    "after (stop_sources (activeAudioSources w) w) = w\<lparr>trace := trace w @ map (\<lambda>s. SourceStop (node_id s)) ys\<rparr>"
    using after_stop_sources by blast
  show ?thesis
  proof (cases "stop_sources (activeAudioSources w) w")
    case (Inl x)
    then show ?thesis using True ys
      by (intro exI [of _ ys] exI [of _ w]) (simp add: handle_interruption_def)
  next
    case (Inr w3)
    then show ?thesis using True ys
      by (intro exI [of _ ys] exI [of _ "w\<lparr>activeAudioSources := [], playbackNextStartTime := 0\<rparr>"])
         (simp add: handle_interruption_def)
  qed
qed


lemma handle_tool_calls_after_fields [simp]:
  "isConnecting (after (handle_tool_calls m w)) = isConnecting w"
  "isConnected (after (handle_tool_calls m w)) = isConnected w"
  "transcriptionHistory (after (handle_tool_calls m w)) = transcriptionHistory w"
  "currentInputTranscription (after (handle_tool_calls m w)) = currentInputTranscription w"
  "currentOutputTranscription (after (handle_tool_calls m w)) = currentOutputTranscription w"
  "microphoneStream (after (handle_tool_calls m w)) = microphoneStream w"
  "inputAudioContext (after (handle_tool_calls m w)) = inputAudioContext w"
  "outputAudioContext (after (handle_tool_calls m w)) = outputAudioContext w"
  "inputScriptProcessor (after (handle_tool_calls m w)) = inputScriptProcessor w"
  "inputAudioSource (after (handle_tool_calls m w)) = inputAudioSource w"
  "outputGainNode (after (handle_tool_calls m w)) = outputGainNode w"
  "playbackNextStartTime (after (handle_tool_calls m w)) = playbackNextStartTime w"
  "activeAudioSources (after (handle_tool_calls m w)) = activeAudioSources w"
  "sessionPromise (after (handle_tool_calls m w)) = sessionPromise w"
  "promiseCount (after (handle_tool_calls m w)) = promiseCount w"
  "nodesCreated (after (handle_tool_calls m w)) = nodesCreated w"
  "trace (after (handle_tool_calls m w)) = trace w"
  by (simp_all add: handle_tool_calls_def split: option.splits)

lemma handle_interruption_after_fields [simp]:
  "isConnecting (after (handle_interruption m w)) = isConnecting w"
  "isConnected (after (handle_interruption m w)) = isConnected w"
  "transcriptionHistory (after (handle_interruption m w)) = transcriptionHistory w"
  "currentInputTranscription (after (handle_interruption m w)) = currentInputTranscription w"
  "currentOutputTranscription (after (handle_interruption m w)) = currentOutputTranscription w"
  "microphoneStream (after (handle_interruption m w)) = microphoneStream w"
  "inputAudioContext (after (handle_interruption m w)) = inputAudioContext w"
  "outputAudioContext (after (handle_interruption m w)) = outputAudioContext w"
  "inputScriptProcessor (after (handle_interruption m w)) = inputScriptProcessor w"
  "inputAudioSource (after (handle_interruption m w)) = inputAudioSource w"
  "outputGainNode (after (handle_interruption m w)) = outputGainNode w"
  "sessionPromise (after (handle_interruption m w)) = sessionPromise w"
  "promises (after (handle_interruption m w)) = promises w"
  "promiseCount (after (handle_interruption m w)) = promiseCount w"
  "microtasks (after (handle_interruption m w)) = microtasks w"
  "nodesCreated (after (handle_interruption m w)) = nodesCreated w"
  using handle_interruption_after [of m w] by auto

lemma process_audio_after_fields [simp]:
  "isConnecting (after (process_audio env m w)) = isConnecting w"
  "isConnected (after (process_audio env m w)) = isConnected w"
  "transcriptionHistory (after (process_audio env m w)) = transcriptionHistory w"
  "currentInputTranscription (after (process_audio env m w)) = currentInputTranscription w"
  "currentOutputTranscription (after (process_audio env m w)) = currentOutputTranscription w"
  "microphoneStream (after (process_audio env m w)) = microphoneStream w"
  "inputAudioContext (after (process_audio env m w)) = inputAudioContext w"
  "outputAudioContext (after (process_audio env m w)) = outputAudioContext w"
  "inputScriptProcessor (after (process_audio env m w)) = inputScriptProcessor w"
  "inputAudioSource (after (process_audio env m w)) = inputAudioSource w"
  "outputGainNode (after (process_audio env m w)) = outputGainNode w"
  "sessionPromise (after (process_audio env m w)) = sessionPromise w"
  "promises (after (process_audio env m w)) = promises w"
  "promiseCount (after (process_audio env m w)) = promiseCount w"
  "microtasks (after (process_audio env m w)) = microtasks w"
  by (cases "inbound_buffer m w"; simp add: process_audio_None process_audio_Some)+

text \<open>A field the three fallible blocks leave alone is, after the handler, what the two
  first blocks made it.\<close>

lemma onmessage_field:
  assumes "\<And>w. g (after (process_audio env m w)) = g w"
    and "\<And>w. g (after (handle_interruption m w)) = g w"
    and "\<And>w. g (after (handle_tool_calls m w)) = g w"
  shows "g (after (onmessage env m w)) = g (process_turn_complete env m (process_transcription m w))"
proof (cases env m w rule: onmessage_cases)
  case (audio_throws x)
  then show ?thesis using assms(1) [of "process_turn_complete env m (process_transcription m w)"]
    by simp
next
  case (interruption_throws w3 x)
  then show ?thesis
    using assms(1) [of "process_turn_complete env m (process_transcription m w)"] assms(2) [of w3]
    by simp
next
  case (tool_calls w3 w4)
  then show ?thesis
    using assms(1) [of "process_turn_complete env m (process_transcription m w)"] assms(2) [of w3]
      assms(3) [of w4]
    by simp
qed

lemma getJarvisPrefix_const: "getJarvisPrefix h = js ''Indeed, Sir.''"
  by (simp add: getJarvisPrefix_def JARVIS_PREFIX_def)


lemma onmessage_partials:
  "transcriptionHistory (after (onmessage env m w))
      = transcriptionHistory (process_turn_complete env m (process_transcription m w))"
  "currentInputTranscription (after (onmessage env m w))
      = currentInputTranscription (process_turn_complete env m (process_transcription m w))"
  "currentOutputTranscription (after (onmessage env m w))
      = currentOutputTranscription (process_turn_complete env m (process_transcription m w))"
  by (rule onmessage_field; simp)+

lemma connecting_eq:
  "connecting =
     initial\<lparr>isConnecting := True, microphoneStream := Some MediaStream,
             inputAudioContext := Some (AudioContext 16000),
             outputAudioContext := Some (AudioContext 24000),
             outputGainNode := Some GainNode, sessionPromise := Some 0,
             promises := (promises initial)(0 := \<lparr>settled = Pending, reactions = []\<rparr>),
             promiseCount := Suc 0\<rparr>"
  by (simp add: connecting_def startConversation_continue_def startConversation_def
      start_steps_def initial_def)

lemma active_fields:
  "isConnecting active = False" "isConnected active = True"
  "transcriptionHistory active = []" "currentInputTranscription active = []"
  "currentOutputTranscription active = []"
  "microphoneStream active = Some MediaStream"
  "inputAudioContext active = Some (AudioContext 16000)"
  "outputAudioContext active = Some (AudioContext 24000)"
  "inputScriptProcessor active = Some ScriptProcessorNode"
  "inputAudioSource active = Some MediaStreamAudioSourceNode"
  "outputGainNode active = Some GainNode"
  "playbackNextStartTime active = 0" "activeAudioSources active = []"
  "promiseCount active = Suc 0" "microtasks active = []" "nodesCreated active = 0"
  by (simp_all add: active_def onopen_def Let_def connecting_eq initial_def)

section \<open>Finalising a turn\<close>

text \<open>
  C4. On a message with the turn-complete marker, let \<open>u\<close> and \<open>a\<close> be the user and
  assistant partials when the marker is handled (that is, after the transcript delta of the
  same message, if any, has been appended). The history gains exactly one turn, stored as
  two consecutive chat messages: the user's, with text \<open>u.trim()\<close>, then the assistant's,
  with the persona prefix \<open>Indeed, Sir.\<close> and a space before \<open>a.trim()\<close>. Both partials are
  empty afterwards, whatever they were. This holds however the rest of the handler ends.
\<close>

theorem turn_complete_finalises:
  assumes "turnComplete m"
  shows "transcriptionHistory (after (onmessage env m w)) =
           transcriptionHistory w @
             [\<lparr>cm_id = js ''user-'' @ decimal (dateNowUser env) @ js ''-live'', sender = user,
               cm_text = trim (currentInputTranscription (process_transcription m w))\<rparr>,
              \<lparr>cm_id = js ''jarvis-'' @ decimal (dateNowJarvis env) @ js ''-live'', sender = jarvis,
               cm_text = js ''Indeed, Sir. ''
                         @ trim (currentOutputTranscription (process_transcription m w))\<rparr>]
         \<and> currentInputTranscription (after (onmessage env m w)) = []
         \<and> currentOutputTranscription (after (onmessage env m w)) = []"
proof -
  have pref: "getJarvisPrefix (hours env) @ js '' '' @ x = js ''Indeed, Sir. '' @ x" for x
    by (simp add: getJarvisPrefix_const js_def)
  show ?thesis
    using assms unfolding onmessage_partials process_turn_complete_def Let_def pref by simp
qed

theorem turn_complete_finalises_witness:
  "transcriptionHistory
     (after (onmessage (at_clock 0) (empty_message\<lparr>turnComplete := True\<rparr>)
              (last (run [(at_clock 0, input_delta ''Hi''), (at_clock 0, output_delta ''Hel''),
                          (at_clock 0, output_delta ''lo ''), (at_clock 0, output_delta ''Sir'')]
                       active))))
   = [\<lparr>cm_id = js ''user-1700000000000-live'', sender = user, cm_text = js ''Hi''\<rparr>,
      \<lparr>cm_id = js ''jarvis-1700000000001-live'', sender = jarvis,
       cm_text = js ''Indeed, Sir. Hello Sir''\<rparr>]
   \<and> currentInputTranscription
       (after (onmessage (at_clock 0) (empty_message\<lparr>turnComplete := True\<rparr>)
              (last (run [(at_clock 0, input_delta ''Hi''), (at_clock 0, output_delta ''Hel''),
                          (at_clock 0, output_delta ''lo ''), (at_clock 0, output_delta ''Sir'')]
                       active)))) = []
   \<and> currentOutputTranscription
       (after (onmessage (at_clock 0) (empty_message\<lparr>turnComplete := True\<rparr>)
              (last (run [(at_clock 0, input_delta ''Hi''), (at_clock 0, output_delta ''Hel''),
                          (at_clock 0, output_delta ''lo ''), (at_clock 0, output_delta ''Sir'')]
                       active)))) = []"
proof -
  let ?w = "last (run [(at_clock 0, input_delta ''Hi''), (at_clock 0, output_delta ''Hel''),
                          (at_clock 0, output_delta ''lo ''), (at_clock 0, output_delta ''Sir'')]
                       active)"
  let ?m = "empty_message\<lparr>turnComplete := True\<rparr>"
  have m: "turnComplete ?m" by simp
  have h: "transcriptionHistory ?w = []"
    by (simp add: Let_def onmessage_partials process_turn_complete_def
        input_delta_def output_delta_def empty_message_def active_fields)
  have u: "currentInputTranscription (process_transcription ?m ?w) = js ''Hi''"
    by (simp add: Let_def onmessage_partials process_turn_complete_def process_transcription_def
        input_delta_def output_delta_def empty_message_def active_fields js_def)
  have a: "currentOutputTranscription (process_transcription ?m ?w) = js ''Hello Sir''"
    by (simp add: Let_def onmessage_partials process_turn_complete_def process_transcription_def
        input_delta_def output_delta_def empty_message_def active_fields js_def)
  have t: "trim (js ''Hi'') = js ''Hi''" "trim (js ''Hello Sir'') = js ''Hello Sir''"
    by (simp_all add: trim_def js_def js_whitespace_def)
  have d: "decimal (dateNowUser (at_clock 0)) = js ''1700000000000''"
    "decimal (dateNowJarvis (at_clock 0)) = js ''1700000000001''"
    by (simp_all add: at_clock_def decimal.simps js_def)
  show ?thesis
    using turn_complete_finalises [OF m, of "at_clock 0" ?w]
    unfolding h u a t d by (simp add: js_def)
qed

section \<open>Teardown and the transcript partials\<close>

lemma rest_field:
  assumes "\<And>w. g (after (process_audio env m w)) = g w"
    and "\<And>w. g (after (handle_interruption m w)) = g w"
    and "\<And>w. g (after (handle_tool_calls m w)) = g w"
  shows "g (after (and_then (process_audio env m w)
                    (\<lambda>w1. and_then (handle_interruption m w1) (handle_tool_calls m)))) = g w"
proof (cases "process_audio env m w")
  case (Inl x)
  then show ?thesis using assms(1) [of w] by (cases x) simp
next
  case pa: (Inr w3)
  show ?thesis
  proof (cases "handle_interruption m w3")
    case (Inl x)
    then show ?thesis using pa assms(1) [of w] assms(2) [of w3] by (cases x) simp
  next
    case (Inr w4)
    then show ?thesis using pa assms(1) [of w] assms(2) [of w3] assms(3) [of w4] by simp
  qed
qed

lemma stopConversation_cases:
  fixes w
  defines "w6 \<equiv> disconnect_gain (disconnect_input_source (disconnect_processor
               (close_output_context (close_input_context (stop_microphone w)))))"
  obtains
    (throws) x where "stopConversation w = Inl x"
      "after (stopConversation w) = after (stop_sources (activeAudioSources w6) w6)"
  | (returns) w7 where "w7 = after (stop_sources (activeAudioSources w6) w6)"
      "stopConversation w =
         Inr ((then_session ThenCloseSession
                 (w7\<lparr>activeAudioSources := [], playbackNextStartTime := 0\<rparr>))
               \<lparr>isConnected := False, isConnecting := False\<rparr>)"
proof (cases "stop_sources (activeAudioSources w6) w6")
  case (Inl x)
  then show ?thesis using throws [of x] by (simp add: stopConversation_def Let_def w6_def)
next
  case (Inr w7)
  then show ?thesis using returns [of w7] by (simp add: stopConversation_def Let_def w6_def)
qed

lemma stopConversation_after_fields [simp]:
  "transcriptionHistory (after (stopConversation w)) = transcriptionHistory w"
  "currentInputTranscription (after (stopConversation w)) = currentInputTranscription w"
  "currentOutputTranscription (after (stopConversation w)) = currentOutputTranscription w"
  "sessionPromise (after (stopConversation w)) = sessionPromise w"
  "promiseCount (after (stopConversation w)) = promiseCount w"
  "nodesCreated (after (stopConversation w)) = nodesCreated w"
  by (cases w rule: stopConversation_cases; simp)+

lemma stopConversation_returns:
  assumes "sources_started w"
  shows "\<exists>w1. stopConversation w = Inr w1
     \<and> \<not> isConnected w1 \<and> \<not> isConnecting w1 \<and> devices_released w1
     \<and> activeAudioSources w1 = [] \<and> playbackNextStartTime w1 = 0"
  using assms unfolding stopConversation_def sources_started_def Let_def
  by (simp add: stop_sources_started devices_released_def)

text \<open>
  C8, as the code has it. Teardown, whether by \<open>stopConversation\<close> itself or by the error or
  close callback, leaves both partial accumulators as they were; it is the next accepted
  \<open>startConversation\<close> that empties them.
\<close>

theorem teardown_keeps_partials:
  "currentInputTranscription (after (stopConversation w)) = currentInputTranscription w
   \<and> currentOutputTranscription (after (stopConversation w)) = currentOutputTranscription w
   \<and> currentInputTranscription (after (onerror detail w)) = currentInputTranscription w
   \<and> currentOutputTranscription (after (onerror detail w)) = currentOutputTranscription w
   \<and> currentInputTranscription (after (onclose w)) = currentInputTranscription w
   \<and> currentOutputTranscription (after (onclose w)) = currentOutputTranscription w
   \<and> (\<not> isConnected w \<and> \<not> isConnecting w \<longrightarrow>
        currentInputTranscription (startConversation w) = []
        \<and> currentOutputTranscription (startConversation w) = [])"
  by (simp add: onerror_def onclose_def startConversation_def)

lemma heard_Hi:
  "currentInputTranscription (after (onmessage (at_clock 0) (input_delta ''Hi'') active)) = js ''Hi''"
  "isConnected (after (onmessage (at_clock 0) (input_delta ''Hi'') active))"
  by (simp_all add: onmessage_partials onmessage_field [where g = isConnected]
      process_turn_complete_def process_transcription_def
      input_delta_def empty_message_def active_fields Let_def)

theorem teardown_keeps_partials_witness:
  "currentInputTranscription
     (after (stopConversation (after (onmessage (at_clock 0) (input_delta ''Hi'') active))))
   = js ''Hi''
   \<and> currentInputTranscription (startConversation initial) = []"
  using teardown_keeps_partials
          [of "after (onmessage (at_clock 0) (input_delta ''Hi'') active)"]
        teardown_keeps_partials [of initial]
  by (simp add: heard_Hi initial_def)

text \<open>
  The claim as stated fails: after a user delta \<open>Hi\<close> in an open session,
  \<open>stopConversation\<close> leaves the user partial \<open>Hi\<close>.
\<close>

theorem teardown_clears_partials_counterexample:
  "currentInputTranscription
     (after (stopConversation (after (onmessage (at_clock 0) (input_delta ''Hi'') active))))
   = js ''Hi''
   \<and> currentInputTranscription
     (after (stopConversation (after (onmessage (at_clock 0) (input_delta ''Hi'') active))))
   \<noteq> []"
  by (simp add: heard_Hi js_def)

section \<open>Starting while a session is in progress\<close>

text \<open>
  C6. Called while \<open>isConnected\<close> or \<open>isConnecting\<close> holds, \<open>startConversation\<close> makes exactly
  one call, \<open>onError\<close> with the message that a live session is already in progress, and
  returns: every field of \<open>LiveAssistantState\<close> is unchanged, and so are the promises, the
  microtask queue and the source nodes.
\<close>

theorem startConversation_rejected:
  assumes "isConnected w \<or> isConnecting w"
  shows "calls_between w (startConversation w) =
           [OnError (js ''System status: Operational anomaly detected. Live session already in progress.'')]
         \<and> length (errors_reported (calls_between w (startConversation w))) = 1
         \<and> LiveAssistantState.truncate (startConversation w) = LiveAssistantState.truncate w
         \<and> promises (startConversation w) = promises w
         \<and> promiseCount (startConversation w) = promiseCount w
         \<and> microtasks (startConversation w) = microtasks w
         \<and> nodesCreated (startConversation w) = nodesCreated w"
proof -
  have "startConversation w =
      emit (OnError (js ''System status: Operational anomaly detected. Live session already in progress.'')) w"
    using assms by (simp add: startConversation_def JARVIS_ERROR_PREFIX_def js_def)
  then show ?thesis
    by (simp add: emit_def calls_between_def LiveAssistantState.truncate_def)
qed

theorem startConversation_rejected_witness:
  "isConnecting connecting
   \<and> calls_between connecting (startConversation connecting) =
       [OnError (js ''System status: Operational anomaly detected. Live session already in progress.'')]
   \<and> LiveAssistantState.truncate (startConversation connecting) = LiveAssistantState.truncate connecting"
proof -
  have c: "isConnecting connecting" by (simp add: connecting_eq)
  then have "isConnected connecting \<or> isConnecting connecting" by simp
  from startConversation_rejected [OF this] c show ?thesis by simp
qed

section \<open>Every active source has been started\<close>

lemma sources_started_cong:
  "activeAudioSources w1 = activeAudioSources w \<Longrightarrow> sources_started w1 = sources_started w"
  by (simp add: sources_started_def)

lemma sources_started_empty: "activeAudioSources w = [] \<Longrightarrow> sources_started w"
  by (simp add: sources_started_def)

lemma sources_started_stopConversation:
  "sources_started w \<Longrightarrow> sources_started (after (stopConversation w))"
  using stopConversation_returns [of w] by (auto intro: sources_started_empty)

lemma sources_started_process_audio:
  assumes "sources_started w"
  shows "sources_started (after (process_audio env m w))"
proof (cases "inbound_buffer m w")
  case None
  then show ?thesis using assms by (simp add: process_audio_None)
next
  case (Some b)
  then show ?thesis using assms
    by (simp add: process_audio_Some sources_started_def Set_add_def)
qed

lemma sources_started_handle_interruption:
  assumes "sources_started w"
  shows "sources_started (after (handle_interruption m w))"
  using assms handle_interruption_after [of m w] by (auto simp: sources_started_def)

lemma handle_interruption_returns:
  assumes "sources_started w"
  shows "\<exists>w1. handle_interruption m w = Inr w1"
  using assms by (simp add: handle_interruption_def sources_started_def stop_sources_started)

lemma sources_started_onmessage:
  assumes "sources_started w"
  shows "sources_started (after (onmessage env m w))"
proof -
  let ?w2 = "process_turn_complete env m (process_transcription m w)"
  have w2: "sources_started ?w2"
    using assms by (simp add: sources_started_def)
  have w3: "sources_started (after (process_audio env m ?w2))"
    by (rule sources_started_process_audio [OF w2])
  show ?thesis
  proof (cases env m w rule: onmessage_cases)
    case (audio_throws x)
    then show ?thesis using w3 by simp
  next
    case (interruption_throws w3 x)
    then show ?thesis using w3 sources_started_handle_interruption [of w3 m] by simp
  next
    case (tool_calls w3 w4)
    then have "sources_started w4"
      using w3 sources_started_handle_interruption [of w3 m] by simp
    then show ?thesis using tool_calls by (simp add: sources_started_def)
  qed
qed

lemma sources_started_continue:
  assumes "sources_started w"
  shows "sources_started (after (startConversation_continue r w))"
proof (cases r)
  case Connects
  then show ?thesis using assms by (simp add: startConversation_continue_def sources_started_def)
next
  case (Throws step error)
  then show ?thesis using assms
    by (auto simp: startConversation_continue_def Let_def sources_started_def
        intro!: sources_started_stopConversation [unfolded sources_started_def])
qed

lemma sources_started_onaudioprocess:
  "sources_started w \<Longrightarrow> sources_started (after (onaudioprocess d w))"
  by (simp add: onaudioprocess_def sources_started_def split: sum.splits)

lemma reachable_sources_started: "reachable w \<Longrightarrow> sources_started w"
proof (induction rule: reachable.induct)
  case r_initial
  show ?case by (simp add: sources_started_def initial_def)
next
  case (r_start w)
  then show ?case by (simp add: sources_started_def startConversation_def)
next
  case (r_continue w r)
  from r_continue.IH show ?case by (rule sources_started_continue)
next
  case (r_stop w)
  from r_stop.IH show ?case by (rule sources_started_stopConversation)
next
  case (r_open w)
  then show ?case by (simp add: sources_started_def)
next
  case (r_message w env message)
  from r_message.IH show ?case by (rule sources_started_onmessage)
next
  case (r_error w detail)
  then show ?case
    unfolding onerror_def by (intro sources_started_stopConversation) (simp add: sources_started_def)
next
  case (r_close w)
  then show ?case
    unfolding onclose_def by (intro sources_started_stopConversation) (simp add: sources_started_def)
next
  case (r_audio w inputData)
  from r_audio.IH show ?case by (rule sources_started_onaudioprocess)
next
  case (r_ended w source)
  then show ?case by (simp add: sources_started_def onended_def list_all_iff)
next
  case (r_fulfil w p)
  then show ?case by (simp add: sources_started_def)
next
  case (r_reject w p)
  then show ?case by (simp add: sources_started_def)
next
  case (r_drain w)
  then show ?case by (simp add: sources_started_def)
qed

lemma inbound_buffer_cong:
  "outputAudioContext w1 = outputAudioContext w \<Longrightarrow> outputGainNode w1 = outputGainNode w
     \<Longrightarrow> inbound_buffer m w1 = inbound_buffer m w"
  by (cases "inlineData m") (simp_all add: inbound_buffer_def)

lemma decodes_cong:
  "outputAudioContext w1 = outputAudioContext w \<Longrightarrow> outputGainNode w1 = outputGainNode w
     \<Longrightarrow> decodes m w1 = decodes m w"
  using inbound_buffer_cong [of w1 w m]
  by (cases "inlineData m") (simp_all add: decodes_def)

lemma process_audio_returns:
  assumes "decodes m w"
  shows "\<exists>w1. process_audio env m w = Inr w1"
  using assms process_audio_Some [of m w _ env] process_audio_None_decodes [of m w env]
  by (cases "inbound_buffer m w") auto

lemma handle_tool_calls_returns:
  assumes "decodes m w"
  shows "\<exists>w1. handle_tool_calls m w = Inr w1"
  using assms by (auto simp: decodes_def handle_tool_calls_def split: option.splits)

text \<open>
  From a state the service can be in, a message that decodes is handled without a throw.
\<close>

lemma onmessage_returns:
  assumes "sources_started w" "decodes m w"
  shows "\<exists>w1. onmessage env m w = Inr w1"
proof -
  let ?w2 = "process_turn_complete env m (process_transcription m w)"
  have d2: "decodes m ?w2" using assms(2) by (simp add: decodes_cong [of ?w2 w])
  have s2: "sources_started ?w2" using assms(1) by (simp add: sources_started_def)
  obtain w3 where w3: "process_audio env m ?w2 = Inr w3"
    using process_audio_returns [OF d2] by blast
  have s3: "sources_started w3" using sources_started_process_audio [OF s2, of env m] w3 by simp
  obtain w4 where w4: "handle_interruption m w3 = Inr w4"
    using handle_interruption_returns [OF s3] by blast
  have "decodes m w4" using assms(2) w3 w4
      process_audio_after_fields(8,11) [of env m ?w2] handle_interruption_after_fields(8,11) [of m w3]
    by (simp add: decodes_cong [of w4 w])
  then obtain w5 where "handle_tool_calls m w4 = Inr w5"
    using handle_tool_calls_returns by blast
  then show ?thesis using w3 w4 by (simp add: onmessage_def)
qed

section \<open>Scheduling inbound audio\<close>

lemma onmessage_after_fields [simp]:
  "isConnecting (after (onmessage env m w)) = isConnecting w"
  "isConnected (after (onmessage env m w)) = isConnected w"
  "microphoneStream (after (onmessage env m w)) = microphoneStream w"
  "inputAudioContext (after (onmessage env m w)) = inputAudioContext w"
  "outputAudioContext (after (onmessage env m w)) = outputAudioContext w"
  "inputScriptProcessor (after (onmessage env m w)) = inputScriptProcessor w"
  "inputAudioSource (after (onmessage env m w)) = inputAudioSource w"
  "outputGainNode (after (onmessage env m w)) = outputGainNode w"
  "sessionPromise (after (onmessage env m w)) = sessionPromise w"
  "promiseCount (after (onmessage env m w)) = promiseCount w"
  by (subst onmessage_field; simp)+

lemma handle_interruption_not_interrupted:
  "\<not> interrupted m \<Longrightarrow> handle_interruption m w = Inr w"
  by (simp add: handle_interruption_def)

lemma process_transcription_trace:
  "\<exists>es. trace (process_transcription m w) = trace w @ es \<and> silent es"
proof (cases "trace (process_transcription m w) = trace w")
  case True
  then show ?thesis by (intro exI [of _ "[]"]) (simp add: silent_def)
next
  case False
  then obtain s b where "trace (process_transcription m w) = trace w @ [OnTranscription s b]"
    by (auto simp: process_transcription_def emit_def Let_def split: option.splits if_splits)
  then show ?thesis by (intro exI [of _ "[OnTranscription s b]"]) (simp add: silent_def)
qed

text \<open>
  The calls of one run of the handler: some notifications, then the start of the inbound
  buffer if there is one, then the stops of an interruption.
\<close>

lemma onmessage_calls:
  "\<exists>es (ys :: AudioBufferSourceNode list).
     silent es
     \<and> (case inbound_buffer m w of
          Some b \<Rightarrow>
            trace (after (onmessage env m w)) =
              trace w @ es @ [SourceStart (nodesCreated w)
                                (max (playbackNextStartTime w) (currentTime env)) (duration b),
                              OnAudioPlayback]
                @ map (\<lambda>s. SourceStop (node_id s)) ys
            \<and> (\<not> interrupted m \<longrightarrow> ys = []
                 \<and> playbackNextStartTime (after (onmessage env m w))
                     = max (playbackNextStartTime w) (currentTime env) + duration b)
        | None \<Rightarrow>
            trace (after (onmessage env m w)) = trace w @ es @ map (\<lambda>s. SourceStop (node_id s)) ys
            \<and> (\<not> interrupted m \<longrightarrow> ys = []
                 \<and> playbackNextStartTime (after (onmessage env m w)) = playbackNextStartTime w))"
proof -
  let ?w2 = "process_turn_complete env m (process_transcription m w)"
  let ?w3 = "after (process_audio env m ?w2)"
  obtain es where es: "trace (process_transcription m w) = trace w @ es" "silent es"
    using process_transcription_trace by blast
  have ib: "inbound_buffer m ?w2 = inbound_buffer m w"
    by (rule inbound_buffer_cong) simp_all
  obtain ys :: "AudioBufferSourceNode list" where ys:
    "trace (after (onmessage env m w)) = trace ?w3 @ map (\<lambda>s. SourceStop (node_id s)) ys"
    "\<not> interrupted m \<longrightarrow> ys = []
       \<and> playbackNextStartTime (after (onmessage env m w)) = playbackNextStartTime ?w3"
  proof (cases env m w rule: onmessage_cases)
    case (audio_throws x)
    then show ?thesis using that [of "[]"] by simp
  next
    case (interruption_throws w3 x)
    obtain zs :: "AudioBufferSourceNode list" and w1 where
      "after (handle_interruption m w3) = w1\<lparr>trace := trace w3 @ map (\<lambda>s. SourceStop (node_id s)) zs\<rparr>"
      using handle_interruption_after [of m w3] by blast
    moreover have "interrupted m"
      using interruption_throws(2) handle_interruption_not_interrupted [of m w3] by auto
    ultimately show ?thesis using that [of zs] interruption_throws by simp
  next
    case (tool_calls w3 w4)
    obtain zs :: "AudioBufferSourceNode list" and w1 where
      "after (handle_interruption m w3) = w1\<lparr>trace := trace w3 @ map (\<lambda>s. SourceStop (node_id s)) zs\<rparr>"
      using handle_interruption_after [of m w3] by blast
    then have t: "trace w4 = trace w3 @ map (\<lambda>s. SourceStop (node_id s)) zs"
      using tool_calls(2) by simp
    show ?thesis
    proof (cases "interrupted m")
      case True
      then show ?thesis using that [of zs] tool_calls t by simp
    next
      case False
      then have "w4 = w3"
        using tool_calls(2) handle_interruption_not_interrupted [of m w3] by simp
      then show ?thesis using that [of "[]"] tool_calls False by simp
    qed
  qed
  show ?thesis
  proof (cases "inbound_buffer m w")
    case None
    then have "?w3 = ?w2" using ib by (simp add: process_audio_None)
    then show ?thesis using None es ys
      by (intro exI [of _ es] exI [of _ ys]) simp
  next
    case (Some b)
    then have "process_audio env m ?w2 =
      Inr (?w2\<lparr>playbackNextStartTime := max (playbackNextStartTime ?w2) (currentTime env) + duration b,
            activeAudioSources :=
              Set_add \<lparr>node_id = nodesCreated ?w2, started = True\<rparr> (activeAudioSources ?w2),
            nodesCreated := Suc (nodesCreated ?w2),
            trace := trace ?w2 @ [SourceStart (nodesCreated ?w2)
                                  (max (playbackNextStartTime ?w2) (currentTime env)) (duration b),
                                OnAudioPlayback]\<rparr>)"
      using ib by (intro process_audio_Some) simp
    then have "trace ?w3 = trace w @ es @ [SourceStart (nodesCreated w)
                                (max (playbackNextStartTime w) (currentTime env)) (duration b),
                              OnAudioPlayback]"
      and "playbackNextStartTime ?w3 = max (playbackNextStartTime w) (currentTime env) + duration b"
      using es by simp_all
    then show ?thesis using Some es ys
      by (intro exI [of _ es] exI [of _ ys]) simp
  qed
qed

lemma onmessage_schedule:
  "case inbound_buffer m w of
     Some b \<Rightarrow>
       source_starts (calls_between w (after (onmessage env m w)))
         = [(max (playbackNextStartTime w) (currentTime env), duration b)]
       \<and> (\<not> interrupted m \<longrightarrow>
            playbackNextStartTime (after (onmessage env m w))
              = max (playbackNextStartTime w) (currentTime env) + duration b)
   | None \<Rightarrow>
       source_starts (calls_between w (after (onmessage env m w))) = []
       \<and> (\<not> interrupted m \<longrightarrow>
            playbackNextStartTime (after (onmessage env m w)) = playbackNextStartTime w)"
  using onmessage_calls [where m = m and w = w and env = env]
  by (cases "inbound_buffer m w") (auto simp: silent_def)

lemma duration_nonneg: "0 \<le> duration b"
  by (simp add: duration_def)

lemma onmessage_monotone:
  assumes "\<not> interrupted m"
  shows "playbackNextStartTime w \<le> playbackNextStartTime (after (onmessage env m w))"
  using onmessage_schedule [where m = m and w = w and env = env] assms duration_nonneg
  by (cases "inbound_buffer m w") (auto simp: max_def add_increasing2)

lemma length_run [simp]: "length (run ms w) = length ms"
  by (induction ms arbitrary: w) (auto simp: Let_def)

lemma run_nth:
  "i < length ms \<Longrightarrow>
     run ms w ! i = after (onmessage (fst (ms ! i)) (snd (ms ! i)) ((w # run ms w) ! i))"
proof (induction ms arbitrary: w i)
  case Nil
  then show ?case by simp
next
  case (Cons em ms)
  obtain env m where em: "em = (env, m)" by (cases em)
  show ?case
  proof (cases i)
    case 0
    then show ?thesis by (simp add: em Let_def)
  next
    case (Suc j)
    then have "j < length ms" using Cons.prems by simp
    from Cons.IH [OF this, of "after (onmessage env m w)"] show ?thesis
      by (simp add: em Suc Let_def)
  qed
qed

lemma run_bounded_below:
  assumes "\<forall>(env, m) \<in> set ms. \<not> interrupted m"
  shows "\<forall>w1 \<in> set (run ms w). playbackNextStartTime w \<le> playbackNextStartTime w1"
  using assms
proof (induction ms arbitrary: w)
  case Nil
  then show ?case by simp
next
  case (Cons em ms)
  obtain env m where em: "em = (env, m)" by (cases em)
  have step: "playbackNextStartTime w \<le> playbackNextStartTime (after (onmessage env m w))"
    using Cons.prems em by (intro onmessage_monotone) simp
  have "\<forall>w1 \<in> set (run ms (after (onmessage env m w))).
          playbackNextStartTime (after (onmessage env m w)) \<le> playbackNextStartTime w1"
    using Cons.prems by (intro Cons.IH) simp
  then show ?case using step by (auto simp: em Let_def)
qed

lemma run_sorted:
  assumes "\<forall>(env, m) \<in> set ms. \<not> interrupted m"
  shows "sorted (map playbackNextStartTime (w # run ms w))"
  using assms
proof (induction ms arbitrary: w)
  case Nil
  then show ?case by simp
next
  case (Cons em ms)
  obtain env m where em: "em = (env, m)" by (cases em)
  have "sorted (map playbackNextStartTime
                  (after (onmessage env m w) # run ms (after (onmessage env m w))))"
    using Cons.prems by (intro Cons.IH) simp
  moreover have "\<forall>w1 \<in> set (run (em # ms) w). playbackNextStartTime w \<le> playbackNextStartTime w1"
    using run_bounded_below [OF Cons.prems] .
  ultimately show ?case by (auto simp: em Let_def)
qed

text \<open>
  C1. Over any sequence of inbound messages none of which carries an interruption marker,
  \<open>playbackNextStartTime\<close> never decreases from one message to the next; and each message
  that hands a decoded buffer of duration \<open>d\<close> to playback starts exactly one source, at
  the maximum of the previous \<open>playbackNextStartTime\<close> and the output clock on arrival,
  and sets \<open>playbackNextStartTime\<close> to that start plus \<open>d\<close>. A message that hands no buffer
  to playback starts nothing and leaves \<open>playbackNextStartTime\<close> as it was.
\<close>

theorem playback_schedule:
  assumes "\<forall>(env, m) \<in> set ms. \<not> interrupted m"
  shows "sorted (map playbackNextStartTime (w # run ms w))
    \<and> (\<forall>i < length ms.
         (case inbound_buffer (snd (ms ! i)) ((w # run ms w) ! i) of
            Some b \<Rightarrow>
              source_starts (calls_between ((w # run ms w) ! i) (run ms w ! i))
                = [(max (playbackNextStartTime ((w # run ms w) ! i)) (currentTime (fst (ms ! i))),
                    duration b)]
              \<and> playbackNextStartTime (run ms w ! i)
                = max (playbackNextStartTime ((w # run ms w) ! i)) (currentTime (fst (ms ! i)))
                  + duration b
          | None \<Rightarrow>
              source_starts (calls_between ((w # run ms w) ! i) (run ms w ! i)) = []
              \<and> playbackNextStartTime (run ms w ! i)
                = playbackNextStartTime ((w # run ms w) ! i)))"
proof (intro conjI allI impI)
  show "sorted (map playbackNextStartTime (w # run ms w))"
    by (rule run_sorted [OF assms])
next
  fix i assume i: "i < length ms"
  let ?w0 = "(w # run ms w) ! i"
  have ni: "\<not> interrupted (snd (ms ! i))"
    using assms i nth_mem [of i ms] by (cases "ms ! i") auto
  show "case inbound_buffer (snd (ms ! i)) ?w0 of
            Some b \<Rightarrow>
              source_starts (calls_between ?w0 (run ms w ! i))
                = [(max (playbackNextStartTime ?w0) (currentTime (fst (ms ! i))), duration b)]
              \<and> playbackNextStartTime (run ms w ! i)
                = max (playbackNextStartTime ?w0) (currentTime (fst (ms ! i))) + duration b
          | None \<Rightarrow>
              source_starts (calls_between ?w0 (run ms w ! i)) = []
              \<and> playbackNextStartTime (run ms w ! i) = playbackNextStartTime ?w0"
    using onmessage_schedule [where m = "snd (ms ! i)" and w = ?w0 and env = "fst (ms ! i)"] ni
    unfolding run_nth [OF i]
    by (cases "inbound_buffer (snd (ms ! i)) ?w0") auto
qed

lemma decodeBase64_one_frame: "decodeBase64 (js ''AAA='') = Inr [0, 0]"
  by (simp add: decodeBase64_def atob_def strip_padding_def ascii_whitespace_def b64_val_def
      js_def Let_def)

lemma audio_message_buffer:
  assumes "outputAudioContext w \<noteq> None" "outputGainNode w \<noteq> None"
  shows "inbound_buffer audio_message w = Some one_frame"
proof -
  have "decodeAudioData [0, 0] 24000 1 = Inr one_frame"
    by (simp add: decodeAudioData_def Int16Array_of_Uint8Array_def Let_def one_frame_def)
  moreover have "inlineData audio_message = Some (js ''AAA='')" "js ''AAA='' \<noteq> []"
    by (simp_all add: audio_message_def empty_message_def js_def)
  ultimately show ?thesis
    using assms decodeBase64_one_frame unfolding inbound_buffer_Some by blast
qed

lemma one_frame_duration: "duration one_frame = 1 / 24000"
  by (simp add: duration_def one_frame_def)

theorem playback_schedule_witness:
  "sorted (map playbackNextStartTime
            (active # run [(at_clock 0, audio_message), (at_clock (1 / 48000), audio_message)] active))
   \<and> source_starts (calls_between active
        (run [(at_clock 0, audio_message), (at_clock (1 / 48000), audio_message)] active ! 0))
      = [(0, 1 / 24000)]
   \<and> playbackNextStartTime
        (run [(at_clock 0, audio_message), (at_clock (1 / 48000), audio_message)] active ! 0)
      = 1 / 24000
   \<and> source_starts (calls_between
        (run [(at_clock 0, audio_message), (at_clock (1 / 48000), audio_message)] active ! 0)
        (run [(at_clock 0, audio_message), (at_clock (1 / 48000), audio_message)] active ! 1))
      = [(1 / 24000, 1 / 24000)]
   \<and> playbackNextStartTime
        (run [(at_clock 0, audio_message), (at_clock (1 / 48000), audio_message)] active ! 1)
      = 1 / 12000"
proof -
  let ?ms = "[(at_clock 0, audio_message), (at_clock (1 / 48000), audio_message)]"
  let ?w1 = "after (onmessage (at_clock 0) audio_message active)"
  let ?w2 = "after (onmessage (at_clock (1 / 48000)) audio_message ?w1)"
  have none: "\<forall>(env, m) \<in> set ?ms. \<not> interrupted m"
    by (simp add: audio_message_def empty_message_def)
  note sched = playback_schedule [OF none, of active]
  have r: "run ?ms active = [?w1, ?w2]" by (simp add: Let_def)
  have b0: "inbound_buffer audio_message active = Some one_frame"
    by (rule audio_message_buffer) (simp_all add: active_fields)
  have b1: "inbound_buffer audio_message ?w1 = Some one_frame"
    by (rule audio_message_buffer) (simp_all add: active_fields)
  have c: "currentTime (at_clock t) = t" for t by (simp add: at_clock_def)
  have "source_starts (calls_between active ?w1) = [(0, 1 / 24000)]
        \<and> playbackNextStartTime ?w1 = 1 / 24000"
    using sched [THEN conjunct2, rule_format, of 0] unfolding r
    by (simp add: b0 one_frame_duration active_fields c)
  then have s0: "source_starts (calls_between active ?w1) = [(0, 1 / 24000)]"
    and n0: "playbackNextStartTime ?w1 = 1 / 24000" by simp_all
  have "source_starts (calls_between ?w1 ?w2) = [(1 / 24000, 1 / 24000)]
        \<and> playbackNextStartTime ?w2 = 1 / 12000"
    using sched [THEN conjunct2, rule_format, of 1] unfolding r
    by (simp add: b1 one_frame_duration n0 c)
  then show ?thesis using sched [THEN conjunct1] s0 n0 unfolding r by simp
qed

section \<open>Interruption\<close>

lemma set_Set_add [simp]: "set (Set_add x xs) = insert x (set xs)"
  by (auto simp: Set_add_def)

lemma reachable_connecting: "reachable connecting"
  unfolding connecting_def by (intro reachable.intros)

lemma reachable_active: "reachable active"
  unfolding active_def by (intro reachable.intros reachable_connecting)

lemma handle_interruption_Inr:
  assumes "interrupted m" "handle_interruption m w = Inr w1"
  shows "w1 = w\<lparr>trace := trace w @ map (\<lambda>s. SourceStop (node_id s)) (activeAudioSources w),
               activeAudioSources := [], playbackNextStartTime := 0\<rparr>"
proof (cases "stop_sources (activeAudioSources w) w")
  case (Inl x)
  then show ?thesis using assms by (simp add: handle_interruption_def)
next
  case (Inr w3)
  then show ?thesis using assms stop_sources_Inr [OF Inr]
    by (simp add: handle_interruption_def)
qed

text \<open>What a handler that returns has done, when the message carries the marker.\<close>

lemma onmessage_interrupted:
  assumes "interrupted m" "onmessage env m w = Inr w1"
  shows "activeAudioSources w1 = [] \<and> playbackNextStartTime w1 = 0
    \<and> node_id ` set (activeAudioSources w) \<subseteq> set (stopped_nodes (calls_between w w1))
    \<and> set (started_nodes (calls_between w w1)) \<subseteq> set (stopped_nodes (calls_between w w1))"
proof (cases env m w rule: onmessage_cases)
  case (audio_throws x)
  then show ?thesis using assms by simp
next
  case (interruption_throws w3 x)
  then show ?thesis using assms by simp
next
  case (tool_calls w3 w4)
  let ?w2 = "process_turn_complete env m (process_transcription m w)"
  let ?stops = "map (\<lambda>s. SourceStop (node_id s)) (activeAudioSources w3)"
  have w4: "w4 = w3\<lparr>trace := trace w3 @ ?stops, activeAudioSources := [], playbackNextStartTime := 0\<rparr>"
    using handle_interruption_Inr [OF assms(1) tool_calls(2)] .
  have w1: "w1 = after (handle_tool_calls m w4)"
    using tool_calls(3) assms(2) by (metis after_simps(1))
  have f: "activeAudioSources w1 = []" "playbackNextStartTime w1 = 0"
    "trace w1 = trace w3 @ ?stops"
    unfolding w1 by (simp_all add: w4)
  obtain es where es: "trace (process_transcription m w) = trace w @ es" "silent es"
    using process_transcription_trace by blast
  have ib: "inbound_buffer m ?w2 = inbound_buffer m w"
    by (rule inbound_buffer_cong) simp_all
  have w3: "w3 = after (process_audio env m ?w2)" using tool_calls(1) by simp
  show ?thesis
  proof (cases "inbound_buffer m w")
    case None
    then have "w3 = ?w2" using ib w3 by (simp add: process_audio_None)
    then have "trace w1 = trace w @ es @ ?stops" "activeAudioSources w3 = activeAudioSources w"
      using f es by simp_all
    then show ?thesis using f es(2) by (simp add: silent_def)
  next
    case (Some b)
    then have "process_audio env m ?w2 =
      Inr (?w2\<lparr>playbackNextStartTime := max (playbackNextStartTime ?w2) (currentTime env) + duration b,
            activeAudioSources :=
              Set_add \<lparr>node_id = nodesCreated ?w2, started = True\<rparr> (activeAudioSources ?w2),
            nodesCreated := Suc (nodesCreated ?w2),
            trace := trace ?w2 @ [SourceStart (nodesCreated ?w2)
                                  (max (playbackNextStartTime ?w2) (currentTime env)) (duration b),
                                OnAudioPlayback]\<rparr>)"
      using ib by (intro process_audio_Some) simp
    then have "trace w1 = trace w @ es @ [SourceStart (nodesCreated w)
                                  (max (playbackNextStartTime w) (currentTime env)) (duration b),
                                OnAudioPlayback] @ ?stops"
      and "activeAudioSources w3
             = Set_add \<lparr>node_id = nodesCreated w, started = True\<rparr> (activeAudioSources w)"
      using f es w3 by simp_all
    then show ?thesis using f es(2) by (auto simp: silent_def)
  qed
qed


lemma onmessage_not_interrupted_sources:
  assumes "\<not> interrupted m"
  shows "activeAudioSources (after (onmessage env m w))
    = activeAudioSources (after (process_audio env m (process_turn_complete env m (process_transcription m w))))"
proof (cases env m w rule: onmessage_cases)
  case (audio_throws x)
  then show ?thesis by simp
next
  case (interruption_throws w3 x)
  then show ?thesis using assms handle_interruption_not_interrupted [of m w3] by simp
next
  case (tool_calls w3 w4)
  then show ?thesis using assms handle_interruption_not_interrupted [of m w3] by simp
qed

lemma playing:
  "activeAudioSources (after (onmessage (at_clock 0) audio_message active))
     = [\<lparr>node_id = 0, started = True\<rparr>]"
proof -
  let ?w2 = "process_turn_complete (at_clock 0) audio_message (process_transcription audio_message active)"
  have "inbound_buffer audio_message ?w2 = Some one_frame"
    by (rule audio_message_buffer) (simp_all add: active_fields)
  from process_audio_Some [OF this, of "at_clock 0"]
  have "activeAudioSources (after (process_audio (at_clock 0) audio_message ?w2))
          = [\<lparr>node_id = 0, started = True\<rparr>]"
    by (simp add: active_fields Set_add_def)
  moreover have "\<not> interrupted audio_message"
    by (simp add: audio_message_def empty_message_def)
  ultimately show ?thesis by (simp add: onmessage_not_interrupted_sources)
qed



lemma playing_until:
  "playbackNextStartTime (after (onmessage (at_clock 0) audio_message active)) = 1 / 24000"
proof -
  have "inbound_buffer audio_message active = Some one_frame"
    by (rule audio_message_buffer) (simp_all add: active_fields)
  moreover have "\<not> interrupted audio_message"
    by (simp add: audio_message_def empty_message_def)
  ultimately show ?thesis
    using onmessage_schedule [where m = audio_message and w = active and env = "at_clock 0"]
    by (simp add: one_frame_duration active_fields at_clock_def)
qed

lemma onmessage_audio_throws:
  "process_audio env m (process_turn_complete env m (process_transcription m w)) = Inl x
     \<Longrightarrow> onmessage env m w = Inl x"
  by (simp add: onmessage_def)


section \<open>The concrete states\<close>

lemma connecting_fields:
  "isConnecting connecting" "\<not> isConnected connecting"
  "sessionPromise connecting = Some 0" "promiseCount connecting = Suc 0"
  "promises connecting 0 = \<lparr>settled = Pending, reactions = []\<rparr>"
  "microtasks connecting = []" "activeAudioSources connecting = []"
  by (simp_all add: connecting_eq initial_def)

lemma active_session:
  "sessionPromise active = Some 0" "settled (promises active 0) = Fulfilled"
proof -
  let ?o = "onopen connecting"
  have o: "promises ?o 0 = \<lparr>settled = Pending, reactions = []\<rparr>" "microtasks ?o = []"
    "sessionPromise ?o = Some 0"
    by (simp_all add: connecting_fields)
  have f: "microtasks (fulfil 0 ?o) = []" "settled (promises (fulfil 0 ?o) 0) = Fulfilled"
    using o by (simp_all add: fulfil_def)
  show "sessionPromise active = Some 0"
    unfolding active_def drain_def f using o by simp
  show "settled (promises active 0) = Fulfilled"
    unfolding active_def using f by simp
qed

section \<open>The order of handling\<close>

lemma exclusive_fields [simp]:
  "outputTranscription (exclusive m) = outputTranscription m"
  "turnComplete (exclusive m) = turnComplete m"
  "inlineData (exclusive m) = inlineData m"
  "interrupted (exclusive m) = interrupted m"
  "toolCall (exclusive m) = toolCall m"
  by (simp_all add: exclusive_def)

lemma exclusive_inputTranscription:
  "inputTranscription (exclusive m) = (if outputTranscription m = None then inputTranscription m else None)"
  by (simp add: exclusive_def)

lemma process_transcription_spec:
  "process_transcription m w = spec_append_input_delta (exclusive m) (spec_append_output_delta (exclusive m) w)"
proof (cases "outputTranscription m")
  case None
  then show ?thesis
    by (simp add: spec_append_input_delta_def spec_append_output_delta_def delta_def
        exclusive_inputTranscription process_transcription_def emit_def Let_def
        split: option.splits)
next
  case (Some t)
  then show ?thesis
    by (simp add: spec_append_input_delta_def spec_append_output_delta_def delta_def
        exclusive_inputTranscription process_transcription_def emit_def Let_def
        split: option.splits)
qed

lemma process_turn_complete_spec:
  "process_turn_complete env m w = spec_finalize_turn env (exclusive m) w"
  by (simp add: process_turn_complete_def spec_finalize_turn_def TranscriptTurn_def
      getJarvisPrefix_const JARVIS_PREFIX_def Let_def)

lemma transcript_steps_spec:
  "process_turn_complete env m (process_transcription m w) = spec_transcript_steps env (exclusive m) w"
  by (simp add: spec_transcript_steps_def process_turn_complete_spec process_transcription_spec)

lemma spec_decode_empty: "spec_decode [] = None"
  by (simp add: spec_decode_def decodeBase64_def atob_def strip_padding_def decodeAudioData_def
      Int16Array_of_Uint8Array_def)

lemma playAudioBuffer_spec:
  "(case playAudioBuffer b (currentTime env) (playbackNextStartTime w) w of
      (nextStartTime, w1) \<Rightarrow> Inr (emit OnAudioPlayback (w1\<lparr>playbackNextStartTime := nextStartTime\<rparr>)))
   = (Inr (spec_schedule env b w) :: outcome)"
  by (simp add: playAudioBuffer_def spec_schedule_def emit_def Let_def)

lemma process_audio_spec:
  assumes "outputAudioContext w \<noteq> None" "outputGainNode w \<noteq> None" "\<not> malformed_payload m"
  shows "process_audio env m w = Inr (spec_schedule_audio env (exclusive m) w)"
proof (cases "inlineData m")
  case None
  then show ?thesis by (simp add: process_audio_def spec_schedule_audio_def)
next
  case (Some payload)
  show ?thesis
  proof (cases "payload = []")
    case True
    then show ?thesis using Some
      by (simp add: process_audio_def spec_schedule_audio_def spec_decode_empty)
  next
    case False
    then obtain b where b: "spec_decode payload = Some b"
      using assms(3) Some by (auto simp: malformed_payload_def)
    then obtain bytes where bytes: "decodeBase64 payload = Inr bytes"
      "decodeAudioData bytes 24000 1 = Inr b"
      by (auto simp: spec_decode_def split: sum.splits)
    show ?thesis
      using Some False assms(1,2) b bytes playAudioBuffer_spec [of b env w]
      by (simp add: process_audio_def spec_schedule_audio_def)
  qed
qed

lemma process_audio_malformed:
  assumes "outputAudioContext w \<noteq> None" "outputGainNode w \<noteq> None" "malformed_payload m"
  shows "\<exists>e. process_audio env m w = Inl (e, w)"
proof -
  obtain payload where p: "inlineData m = Some payload" "payload \<noteq> []" "spec_decode payload = None"
    using assms(3) by (auto simp: malformed_payload_def split: option.splits)
  show ?thesis
  proof (cases "decodeBase64 payload")
    case (Inl e)
    then show ?thesis using p assms(1,2) by (simp add: process_audio_def)
  next
    case (Inr bytes)
    then obtain e where "decodeAudioData bytes 24000 1 = Inl e"
      using p(3) by (auto simp: spec_decode_def split: sum.splits)
    then show ?thesis using p Inr assms(1,2) by (simp add: process_audio_def)
  qed
qed

lemma handle_interruption_spec:
  assumes "sources_started w"
  shows "handle_interruption m w = Inr (spec_abort_playback (exclusive m) w)"
  using assms
  by (simp add: handle_interruption_def spec_abort_playback_def sources_started_def
      stop_sources_started)

lemma fold_then_session_spec:
  "fold (\<lambda>fc. then_session (ThenSendToolResponse (tool_response fc))) fcs w = spec_forward fcs w"
  by (induction fcs arbitrary: w) simp_all

lemma handle_tool_calls_spec:
  "handle_tool_calls m w =
     (if malformed_tool_call m then Inl (TypeError, spec_forward_tool_calls (exclusive m) w)
      else Inr (spec_forward_tool_calls (exclusive m) w))"
  by (simp add: handle_tool_calls_def malformed_tool_call_def spec_forward_tool_calls_def
      fold_then_session_spec split: option.splits)

lemma spec_transcript_steps_fields [simp]:
  "outputAudioContext (spec_transcript_steps env m w) = outputAudioContext w"
  "outputGainNode (spec_transcript_steps env m w) = outputGainNode w"
  "activeAudioSources (spec_transcript_steps env m w) = activeAudioSources w"
  by (simp_all add: spec_transcript_steps_def spec_finalize_turn_def spec_append_input_delta_def
      spec_append_output_delta_def split: option.splits)

lemma sources_started_spec_schedule_audio:
  assumes "sources_started w"
  shows "sources_started (spec_schedule_audio env m w)"
  using assms
  by (simp add: spec_schedule_audio_def spec_schedule_def sources_started_def Set_add_def Let_def
      split: option.splits)



lemma spec_decode_one_frame: "spec_decode (js ''AAA='') = Some one_frame"
  by (simp add: spec_decode_def decodeBase64_one_frame decodeAudioData_def
      Int16Array_of_Uint8Array_def Let_def one_frame_def)

lemma spec_decode_A: "spec_decode (js ''A'') = None"
  by (simp add: spec_decode_def decodeBase64_def atob_def strip_padding_def ascii_whitespace_def
      js_def Let_def)

lemma transcript_steps_every_field:
  assumes "outputTranscription m = Some (Transcription (Some (js ''A'')))"
    "inputTranscription m = None" "turnComplete m"
  shows "spec_transcript_steps (at_clock 0) m active
     = active\<lparr>transcriptionHistory :=
                 [\<lparr>cm_id = js ''user-1700000000000-live'', sender = user, cm_text = []\<rparr>,
                  \<lparr>cm_id = js ''jarvis-1700000000001-live'', sender = jarvis,
                   cm_text = js ''Indeed, Sir. A''\<rparr>],
               currentInputTranscription := [], currentOutputTranscription := [],
               trace := trace active @ [OnTranscription (js ''A'') False]\<rparr>"
proof -
  have t: "trim (js ''A'') = js ''A''" "trim [] = []"
    by (simp_all add: trim_def js_def js_whitespace_def)
  have d: "decimal (dateNowUser (at_clock 0)) = js ''1700000000000''"
    "decimal (dateNowJarvis (at_clock 0)) = js ''1700000000001''"
    by (simp_all add: at_clock_def decimal.simps js_def)
  have j: "js ''A'' \<noteq> []" "JARVIS_PREFIX @ js '' '' @ js ''A'' = js ''Indeed, Sir. A''"
    "js ''user-'' @ js ''1700000000000'' @ js ''-live'' = js ''user-1700000000000-live''"
    "js ''jarvis-'' @ js ''1700000000001'' @ js ''-live'' = js ''jarvis-1700000000001-live''"
    by (simp_all add: js_def JARVIS_PREFIX_def)
  have 1: "spec_append_output_delta m active
      = active\<lparr>currentOutputTranscription := js ''A'',
                trace := trace active @ [OnTranscription (js ''A'') False]\<rparr>"
    using j(1) assms by (simp add: spec_append_output_delta_def delta_def emit_def active_fields)
  show ?thesis
    unfolding spec_transcript_steps_def 1 using assms
    by (simp add: spec_append_input_delta_def delta_def spec_finalize_turn_def TranscriptTurn_def
        active_fields t d j(2,3,4))
qed



section \<open>Tool calls\<close>

lemma fold_then_session_fulfilled:
  assumes "sessionPromise w = Some p" "settled (promises w p) = Fulfilled"
  shows "fold (\<lambda>x. then_session (g x)) xs w = w\<lparr>microtasks := microtasks w @ map (\<lambda>x. (p, g x)) xs\<rparr>"
  using assms
proof (induction xs arbitrary: w)
  case Nil
  then show ?case by simp
next
  case (Cons x xs)
  let ?w1 = "w\<lparr>microtasks := microtasks w @ [(p, g x)]\<rparr>"
  have 1: "then_session (g x) w = ?w1"
    using Cons.prems by (simp add: then_session_def)
  have 2: "fold (\<lambda>x. then_session (g x)) xs ?w1
      = ?w1\<lparr>microtasks := microtasks ?w1 @ map (\<lambda>x. (p, g x)) xs\<rparr>"
    by (rule Cons.IH) (simp_all add: Cons.prems)
  have "fold (\<lambda>x. then_session (g x)) (x # xs) w = fold (\<lambda>x. then_session (g x)) xs ?w1"
    by (simp add: 1)
  also have "\<dots> = w\<lparr>microtasks := microtasks w @ map (\<lambda>x. (p, g x)) (x # xs)\<rparr>"
    unfolding 2 by simp
  finally show ?case .
qed

lemma fold_then_session_none:
  assumes "sessionPromise w = None"
  shows "fold (\<lambda>x. then_session (g x)) xs w = w"
  using assms by (induction xs arbitrary: w) (simp_all add: then_session_def)

lemma trace_run_reaction: "trace (run_reaction pr w) = trace w @ [reaction_call pr]"
  by (cases pr rule: reaction_call.cases) (simp_all add: emit_def)

lemma trace_fold_run_reaction:
  "trace (fold run_reaction ms w) = trace w @ map reaction_call ms"
  by (induction ms arbitrary: w) (simp_all add: trace_run_reaction)

lemma trace_drain: "trace (drain w) = trace w @ map reaction_call (microtasks w)"
  by (simp add: drain_def trace_fold_run_reaction)

lemma tool_responses_queued:
  "tool_responses (map reaction_call (map (\<lambda>x. (p, ThenSendToolResponse (g x))) xs)) = map g xs"
  by (induction xs) simp_all

lemma onmessage_no_tool_responses:
  "\<exists>es. trace (after (onmessage env m w)) = trace w @ es \<and> tool_responses es = []"
proof -
  obtain es and ys :: "AudioBufferSourceNode list" where
    "silent es"
    "case inbound_buffer m w of
          Some b \<Rightarrow>
            trace (after (onmessage env m w)) =
              trace w @ es @ [SourceStart (nodesCreated w)
                                (max (playbackNextStartTime w) (currentTime env)) (duration b),
                              OnAudioPlayback]
                @ map (\<lambda>s. SourceStop (node_id s)) ys
            \<and> (\<not> interrupted m \<longrightarrow> ys = []
                 \<and> playbackNextStartTime (after (onmessage env m w))
                     = max (playbackNextStartTime w) (currentTime env) + duration b)
        | None \<Rightarrow>
            trace (after (onmessage env m w)) = trace w @ es @ map (\<lambda>s. SourceStop (node_id s)) ys
            \<and> (\<not> interrupted m \<longrightarrow> ys = []
                 \<and> playbackNextStartTime (after (onmessage env m w)) = playbackNextStartTime w)"
    using onmessage_calls [where m = m and w = w and env = env] by blast
  then show ?thesis
    by (cases "inbound_buffer m w") (auto simp: silent_def)
qed

text \<open>The state in which the handler reaches its tool-call block, when it does.\<close>

lemma onmessage_tool_calls:
  assumes "onmessage env m w = Inr w1"
  shows "\<exists>w4. handle_tool_calls m w4 = Inr w1 \<and> sessionPromise w4 = sessionPromise w
    \<and> promises w4 = promises w \<and> microtasks w4 = microtasks w"
proof (cases env m w rule: onmessage_cases)
  case (audio_throws x)
  then show ?thesis using assms by simp
next
  case (interruption_throws w3 x)
  then show ?thesis using assms by simp
next
  case (tool_calls w3 w4)
  let ?w2 = "process_turn_complete env m (process_transcription m w)"
  have "w3 = after (process_audio env m ?w2)" "w4 = after (handle_interruption m w3)"
    using tool_calls by simp_all
  then have "sessionPromise w4 = sessionPromise w" "promises w4 = promises w"
    "microtasks w4 = microtasks w"
    by simp_all
  then show ?thesis using tool_calls(3) assms by auto
qed

lemma onmessage_microtasks_none:
  assumes "sessionPromise w = None"
  shows "microtasks (after (onmessage env m w)) = microtasks w"
proof -
  let ?w2 = "process_turn_complete env m (process_transcription m w)"
  have pa: "microtasks (after (process_audio env m ?w2)) = microtasks w"
    "sessionPromise (after (process_audio env m ?w2)) = None"
    using assms by simp_all
  show ?thesis
  proof (cases env m w rule: onmessage_cases)
    case (audio_throws x)
    then show ?thesis using pa by simp
  next
    case (interruption_throws w3 x)
    then show ?thesis using pa handle_interruption_after_fields(15) [of m w3] by simp
  next
    case (tool_calls w3 w4)
    then have "sessionPromise w4 = None" "microtasks w4 = microtasks w"
      using pa handle_interruption_after_fields(12,15) [of m w3] by simp_all
    then show ?thesis using tool_calls(3)
      by (simp add: handle_tool_calls_def fold_then_session_none split: option.splits)
  qed
qed

lemma tool_calls_dropped:
  assumes "sessionPromise w = None" "microtasks w = []"
  shows "tool_responses (calls_between w (drain (after (onmessage env m w)))) = []"
proof -
  obtain es where "trace (after (onmessage env m w)) = trace w @ es" "tool_responses es = []"
    using onmessage_no_tool_responses by blast
  moreover have "microtasks (after (onmessage env m w)) = []"
    using assms onmessage_microtasks_none [of w env m] by simp
  ultimately show ?thesis by (simp add: trace_drain)
qed

lemma responses_for_map:
  "length (filter (\<lambda>r. fr_id r = x) (map tool_response fcs))
     = length (filter (\<lambda>fc. fc_id fc = x) fcs)"
  by (induction fcs) (simp_all add: tool_response_def)

lemma then_session_queues:
  "microtasks (then_session r w) =
     (case sessionPromise w of
        None \<Rightarrow> microtasks w
      | Some p \<Rightarrow> if settled (promises w p) = Fulfilled
                  then microtasks w @ [(p, r)] else microtasks w)"
  "promises (then_session r w) =
     (case sessionPromise w of
        None \<Rightarrow> promises w
      | Some p \<Rightarrow> if settled (promises w p) = Pending
                  then (promises w)(p := (promises w p)\<lparr>reactions := reactions (promises w p) @ [r]\<rparr>)
                  else promises w)"
  by (simp_all add: then_session_def split: option.splits promise_state.splits)

lemma stopConversation_session:
  assumes "sources_started w"
  shows "microtasks (after (stopConversation w)) =
           (case sessionPromise w of
              None \<Rightarrow> microtasks w
            | Some p \<Rightarrow> if settled (promises w p) = Fulfilled
                        then microtasks w @ [(p, ThenCloseSession)] else microtasks w)"
    and "promises (after (stopConversation w)) =
           (case sessionPromise w of
              None \<Rightarrow> promises w
            | Some p \<Rightarrow> if settled (promises w p) = Pending
                        then (promises w)(p := (promises w p)
                               \<lparr>reactions := reactions (promises w p) @ [ThenCloseSession]\<rparr>)
                        else promises w)"
proof -
  have r: "\<exists>w1. stopConversation w = Inr w1"
    using stopConversation_returns [OF assms] by blast
  show "microtasks (after (stopConversation w)) =
           (case sessionPromise w of
              None \<Rightarrow> microtasks w
            | Some p \<Rightarrow> if settled (promises w p) = Fulfilled
                        then microtasks w @ [(p, ThenCloseSession)] else microtasks w)"
    using r by (cases w rule: stopConversation_cases) (simp_all add: then_session_queues split: option.splits)
  show "promises (after (stopConversation w)) =
           (case sessionPromise w of
              None \<Rightarrow> promises w
            | Some p \<Rightarrow> if settled (promises w p) = Pending
                        then (promises w)(p := (promises w p)
                               \<lparr>reactions := reactions (promises w p) @ [ThenCloseSession]\<rparr>)
                        else promises w)"
    using r by (cases w rule: stopConversation_cases) (simp_all add: then_session_queues split: option.splits)
qed

lemma restarted_fields:
  "isConnected restarted" "sessionPromise restarted = None" "microtasks restarted = []"
proof -
  let ?s1 = "after (stopConversation connecting)"
  let ?s3 = "after (startConversation_continue Connects (startConversation ?s1))"
  have c: "sources_started connecting" by (rule reachable_sources_started [OF reachable_connecting])
  obtain w1 where w1: "stopConversation connecting = Inr w1" "\<not> isConnected w1" "\<not> isConnecting w1"
    using stopConversation_returns [OF c] by blast
  have f1: "\<not> isConnected ?s1" "\<not> isConnecting ?s1" using w1 by simp_all
  have p1: "promiseCount ?s1 = Suc 0" by (simp add: connecting_fields)
  have q1: "promises ?s1 0 = \<lparr>settled = Pending, reactions = [ThenCloseSession]\<rparr>"
    "microtasks ?s1 = []"
    using stopConversation_session [OF c] by (simp_all add: connecting_fields)
  have s3: "sessionPromise ?s3 = Some 1" "microtasks ?s3 = []"
    "promises ?s3 0 = \<lparr>settled = Pending, reactions = [ThenCloseSession]\<rparr>"
    "promises ?s3 1 = \<lparr>settled = Pending, reactions = []\<rparr>"
    using f1 p1 q1
    by (simp_all add: startConversation_continue_def start_steps_def startConversation_def)
  show "isConnected restarted" "sessionPromise restarted = None" "microtasks restarted = []"
    unfolding restarted_def using s3
    by (simp_all add: drain_def fulfil_def onopen_def Let_def)
qed

lemma reachable_restarted: "reachable restarted"
  unfolding restarted_def by (intro reachable.intros reachable_connecting)

text \<open>
  C5, as the code has it. Take a message carrying tool-call requests, handled from a state
  the service can be in, whose audio payload (if any is to be played) decodes, with no
  microtask pending when it arrives. The handler returns. If \<open>sessionPromise\<close> holds a
  fulfilled promise, then once the handler's microtasks have run exactly one
  \<open>sendToolResponse\<close> has been issued per request, in the order of the requests, each with
  its request's id and name and the fixed result text; so the responses carrying an
  identifier are as many as the requests carrying it. No function is looked up or run: the
  response does not depend on the name or the arguments. If \<open>sessionPromise\<close> is null, no
  response is issued.
\<close>

theorem tool_calls_answered:
  assumes "reachable w" "decodes m w" "toolCall m = Some (LiveServerToolCall (Some fcs))"
    "microtasks w = []"
  shows "\<exists>w1. onmessage env m w = Inr w1
    \<and> (\<forall>p. sessionPromise w = Some p \<and> settled (promises w p) = Fulfilled \<longrightarrow>
          tool_responses (calls_between w (drain w1)) = map tool_response fcs
        \<and> map fr_id (tool_responses (calls_between w (drain w1))) = map fc_id fcs
        \<and> map fr_name (tool_responses (calls_between w (drain w1))) = map fc_name fcs
        \<and> (\<forall>x. length (responses_for x (calls_between w (drain w1)))
                  = length (filter (\<lambda>fc. fc_id fc = x) fcs)))
    \<and> (sessionPromise w = None \<longrightarrow> tool_responses (calls_between w (drain w1)) = [])"
proof -
  obtain w1 where w1: "onmessage env m w = Inr w1"
    using onmessage_returns [of w m env] reachable_sources_started [OF assms(1)] assms(2) by blast
  obtain w4 where w4: "handle_tool_calls m w4 = Inr w1" "sessionPromise w4 = sessionPromise w"
    "promises w4 = promises w" "microtasks w4 = microtasks w"
    using onmessage_tool_calls [OF w1] by blast
  have fold: "w1 = fold (\<lambda>fc. then_session (ThenSendToolResponse (tool_response fc))) fcs w4"
    using w4(1) assms(3) by (simp add: handle_tool_calls_def)
  obtain es where es: "trace w1 = trace w @ es" "tool_responses es = []"
    using onmessage_no_tool_responses [of env m w] w1 by auto
  have none: "tool_responses (calls_between w (drain w1)) = []" if "sessionPromise w = None"
    using tool_calls_dropped [OF that assms(4), of env m] w1 by simp
  have some: "tool_responses (calls_between w (drain w1)) = map tool_response fcs"
    if "sessionPromise w = Some p" "settled (promises w p) = Fulfilled" for p
  proof -
    have "microtasks w1 = map (\<lambda>fc. (p, ThenSendToolResponse (tool_response fc))) fcs"
      unfolding fold using that w4 assms(4)
      by (subst fold_then_session_fulfilled [where p = p]) simp_all
    then show ?thesis using es tool_responses_queued [of p tool_response fcs]
      by (simp add: trace_drain)
  qed
  have ids: "map fr_id (map tool_response fcs) = map fc_id fcs"
    "map fr_name (map tool_response fcs) = map fc_name fcs"
    by (induction fcs) (simp_all add: tool_response_def)
  have fulfilled: "tool_responses (calls_between w (drain w1)) = map tool_response fcs
        \<and> map fr_id (tool_responses (calls_between w (drain w1))) = map fc_id fcs
        \<and> map fr_name (tool_responses (calls_between w (drain w1))) = map fc_name fcs
        \<and> (\<forall>x. length (responses_for x (calls_between w (drain w1)))
                  = length (filter (\<lambda>fc. fc_id fc = x) fcs))"
    if "sessionPromise w = Some p" "settled (promises w p) = Fulfilled" for p
    unfolding responses_for_def some [OF that] ids responses_for_map by simp
  have A: "\<forall>p. sessionPromise w = Some p \<and> settled (promises w p) = Fulfilled \<longrightarrow>
          tool_responses (calls_between w (drain w1)) = map tool_response fcs
        \<and> map fr_id (tool_responses (calls_between w (drain w1))) = map fc_id fcs
        \<and> map fr_name (tool_responses (calls_between w (drain w1))) = map fc_name fcs
        \<and> (\<forall>x. length (responses_for x (calls_between w (drain w1)))
                  = length (filter (\<lambda>fc. fc_id fc = x) fcs))"
  proof (intro allI impI)
    fix p assume a: "sessionPromise w = Some p \<and> settled (promises w p) = Fulfilled"
    show "tool_responses (calls_between w (drain w1)) = map tool_response fcs
        \<and> map fr_id (tool_responses (calls_between w (drain w1))) = map fc_id fcs
        \<and> map fr_name (tool_responses (calls_between w (drain w1))) = map fc_name fcs
        \<and> (\<forall>x. length (responses_for x (calls_between w (drain w1)))
                  = length (filter (\<lambda>fc. fc_id fc = x) fcs))"
      by (rule fulfilled [OF conjunct1 [OF a] conjunct2 [OF a]])
  qed
  have B: "sessionPromise w = None \<longrightarrow> tool_responses (calls_between w (drain w1)) = []"
    by (intro impI none)
  show ?thesis by (rule exI [of _ w1]) (intro conjI w1 A B)
qed

theorem tool_calls_answered_witness:
  "onmessage (at_clock 0) tool_message active = Inr (after (onmessage (at_clock 0) tool_message active))
   \<and> tool_responses (calls_between active (drain (after (onmessage (at_clock 0) tool_message active))))
     = [\<lparr>fr_id = Some (js ''X''), fr_name = Some (js ''controlLight''),
         fr_result = js ''Function executed successfully. Data processed.''\<rparr>]
   \<and> sessionPromise restarted = None
   \<and> tool_responses
         (calls_between restarted (drain (after (onmessage (at_clock 0) tool_message restarted))))
     = []"
proof -
  have t: "toolCall tool_message = Some (LiveServerToolCall (Some [tool_call_X]))"
    by (simp add: tool_message_def)
  have d: "decodes tool_message w" for w
    by (simp add: decodes_def tool_message_def empty_message_def)
  have m: "microtasks active = []" by (simp add: active_fields)
  obtain w1 where w1: "onmessage (at_clock 0) tool_message active = Inr w1"
    and r: "\<forall>p. sessionPromise active = Some p \<and> settled (promises active p) = Fulfilled \<longrightarrow>
          tool_responses (calls_between active (drain w1)) = map tool_response [tool_call_X]
        \<and> map fr_id (tool_responses (calls_between active (drain w1))) = map fc_id [tool_call_X]
        \<and> map fr_name (tool_responses (calls_between active (drain w1))) = map fc_name [tool_call_X]
        \<and> (\<forall>x. length (responses_for x (calls_between active (drain w1)))
                  = length (filter (\<lambda>fc. fc_id fc = x) [tool_call_X]))"
    using tool_calls_answered [OF reachable_active d t m, of "at_clock 0"] by (elim exE conjE)
  have 1: "tool_responses (calls_between active (drain w1)) = map tool_response [tool_call_X]"
    using r [rule_format, of 0] active_session by simp
  obtain w2 where w2: "onmessage (at_clock 0) tool_message restarted = Inr w2"
    and n: "sessionPromise restarted = None \<longrightarrow>
          tool_responses (calls_between restarted (drain w2)) = []"
    using tool_calls_answered [OF reachable_restarted d t restarted_fields(3), of "at_clock 0"]
    by (elim exE conjE)
  have 2: "tool_responses (calls_between restarted (drain w2)) = []"
    using n restarted_fields(2) by simp
  show ?thesis using w1 1 w2 2 restarted_fields(2)
    by (simp add: tool_response_def tool_call_X_def)
qed

lemma decodeBase64_A: "decodeBase64 (js ''A'') = Inl InvalidCharacterError"
  by (simp add: decodeBase64_def atob_def strip_padding_def ascii_whitespace_def js_def Let_def)

text \<open>
  The claim as stated fails, in two ways. A request with identifier \<open>X\<close> that arrives beside
  an audio payload that does not decode is never looked at: decoding throws out of the
  handler first, and no response is sent, although the session is established. And there
  is a state the service can be in, with the session open, in which \<open>sessionPromise\<close> is null
  (\<open>stopConversation\<close> during connection, then a second \<open>startConversation\<close>: the close
  callback of the first session clears the field of the second); a request arriving there
  gets no response.
\<close>

theorem tool_call_unanswered_counterexample:
  "toolCall garbled_tool_call = Some (LiveServerToolCall (Some [tool_call_X]))
   \<and> toolCall tool_message = Some (LiveServerToolCall (Some [tool_call_X]))
   \<and> fc_id tool_call_X = Some (js ''X'')
   \<and> reachable active \<and> isConnected active
   \<and> sessionPromise active = Some 0 \<and> settled (promises active 0) = Fulfilled
   \<and> onmessage (at_clock 0) garbled_tool_call active = Inl (InvalidCharacterError, active)
   \<and> responses_for (Some (js ''X''))
        (calls_between active (drain (after (onmessage (at_clock 0) garbled_tool_call active)))) = []
   \<and> reachable restarted \<and> isConnected restarted
   \<and> responses_for (Some (js ''X''))
        (calls_between restarted (drain (after (onmessage (at_clock 0) tool_message restarted)))) = []"
proof -
  have t: "process_turn_complete (at_clock 0) garbled_tool_call
             (process_transcription garbled_tool_call active) = active"
    by (simp add: process_turn_complete_def process_transcription_def garbled_tool_call_def
        tool_message_def empty_message_def)
  have "js ''A'' \<noteq> []" by (simp add: js_def)
  then have "process_audio (at_clock 0) garbled_tool_call active = Inl (InvalidCharacterError, active)"
    using decodeBase64_A
    by (simp add: process_audio_def garbled_tool_call_def tool_message_def active_fields)
  then have r: "onmessage (at_clock 0) garbled_tool_call active = Inl (InvalidCharacterError, active)"
    by (intro onmessage_audio_throws) (simp only: t)
  have a: "responses_for (Some (js ''X''))
        (calls_between active (drain (after (onmessage (at_clock 0) garbled_tool_call active)))) = []"
    unfolding r by (simp add: responses_for_def calls_between_def trace_drain active_fields)
  have b: "responses_for (Some (js ''X''))
        (calls_between restarted (drain (after (onmessage (at_clock 0) tool_message restarted)))) = []"
    using tool_calls_dropped [of restarted "at_clock 0" tool_message]
    by (simp add: restarted_fields responses_for_def)
  show ?thesis
    using r a b reachable_active reachable_restarted restarted_fields(1) active_session
    by (simp add: garbled_tool_call_def tool_message_def tool_call_X_def active_fields)
qed

section \<open>Stopping twice\<close>

lemma then_session_none: "sessionPromise w = None \<Longrightarrow> then_session r w = w"
  by (simp add: then_session_def)

lemma then_session_truncate:
  "LiveAssistantState.truncate (then_session r w) = LiveAssistantState.truncate w"
  by (simp add: LiveAssistantState.truncate_def)

text \<open>
  \<open>stopConversation\<close> on a state it has left behind: nothing is released or stopped, and
  the close callback is given to \<open>sessionPromise\<close> once more.
\<close>

lemma stopConversation_idle:
  assumes "devices_released w" "activeAudioSources w = []" "playbackNextStartTime w = 0"
    "\<not> isConnected w" "\<not> isConnecting w"
  shows "stopConversation w = Inr (then_session ThenCloseSession w)"
proof -
  have d: "microphoneStream w = None" "inputAudioContext w = None" "outputAudioContext w = None"
    "inputScriptProcessor w = None" "inputAudioSource w = None" "outputGainNode w = None"
    using assms(1) by (simp_all add: devices_released_def)
  have 6: "disconnect_gain (disconnect_input_source (disconnect_processor
             (close_output_context (close_input_context (stop_microphone w))))) = w"
    by (simp add: stop_microphone_idle close_input_context_idle close_output_context_idle
        disconnect_processor_idle disconnect_input_source_idle disconnect_gain_idle d)
  have 7: "w\<lparr>activeAudioSources := [], playbackNextStartTime := 0\<rparr> = w"
    using assms(2,3) by simp
  have 8: "(then_session ThenCloseSession w)\<lparr>isConnected := False, isConnecting := False\<rparr>
      = then_session ThenCloseSession w"
    using assms(4,5) by simp
  show ?thesis
    unfolding stopConversation_def Let_def 6 assms(2) by (simp add: 7 8)
qed

lemma drain_one:
  assumes "microtasks w = [(p, ThenCloseSession)]"
  shows "sessionPromise (drain w) = None" "trace (drain w) = trace w @ [SessionClose p]"
  using assms by (simp_all add: drain_def emit_def)

lemma devices_released_drain: "devices_released (drain w) = devices_released w"
  by (simp add: devices_released_def)




end
